theory Spec2Isabelle
  imports Main "HOL-Library.Word" "HOL-Library.Signed_Division" "HOL-Library.Monad_Syntax"
begin

unbundle bit_operations_syntax

section \<open>The C library as the driver shim uses it\<close>

text \<open>
  The shim \<^verbatim>\<open>wpa_supplicant_8_lib/driver_cmd_wext.c\<close> works on C strings and on byte
  buffers. A C string is modelled by its characters up to the terminating NUL
  (\<^typ>\<open>string\<close>), a buffer by the list of its bytes, whose length is the size of the
  allocation. An access outside a buffer, and a division by zero, are undefined in C: the
  model returns \<open>None\<close> there, so the functions below have type \<open>... option\<close> and
  \<open>Some\<close> means that the run was well defined. \<^verbatim>\<open>wpa_printf\<close> only logs and is left out.
\<close>

type_synonym byte = "8 word"

definition tolower_c :: "char \<Rightarrow> char" where
  "tolower_c c =
     (case map_of (zip ''ABCDEFGHIJKLMNOPQRSTUVWXYZ'' ''abcdefghijklmnopqrstuvwxyz'') c of
        Some l \<Rightarrow> l
      | None \<Rightarrow> c)"

text \<open>\<^verbatim>\<open>strcasecmp\<close>: the difference of the first pair of characters that differ after
  lower-casing, 0 when there is none.\<close>

fun os_strcasecmp :: "string \<Rightarrow> string \<Rightarrow> int" where
  "os_strcasecmp [] [] = 0"
| "os_strcasecmp [] (b # bs) = - of_char (tolower_c b)"
| "os_strcasecmp (a # as) [] = of_char (tolower_c a)"
| "os_strcasecmp (a # as) (b # bs) =
     (if tolower_c a = tolower_c b then os_strcasecmp as bs
      else of_char (tolower_c a) - of_char (tolower_c b))"

text \<open>\<^verbatim>\<open>strncasecmp\<close> compares at most \<open>n\<close> characters.\<close>

definition os_strncasecmp :: "string \<Rightarrow> string \<Rightarrow> nat \<Rightarrow> int" where
  "os_strncasecmp a b n = os_strcasecmp (take n a) (take n b)"

text \<open>\<^verbatim>\<open>strstr\<close>: the offset of the first occurrence of the needle, \<open>None\<close> for the
  null pointer.\<close>

fun os_strstr :: "string \<Rightarrow> string \<Rightarrow> nat option" where
  "os_strstr [] needle = (if needle = [] then Some 0 else None)"
| "os_strstr (c # cs) needle =
     (if take (length needle) (c # cs) = needle then Some 0
      else map_option Suc (os_strstr cs needle))"

definition isspace_c :: "char \<Rightarrow> bool" where
  "isspace_c c \<longleftrightarrow> c \<in> set [CHR '' '', CHR 0x09, CHR 0x0A, CHR 0x0B, CHR 0x0C, CHR 0x0D]"

definition isdigit_c :: "char \<Rightarrow> bool" where
  "isdigit_c c \<longleftrightarrow> c \<in> set ''0123456789''"

fun atoi_digits :: "int \<Rightarrow> string \<Rightarrow> int" where
  "atoi_digits acc [] = acc"
| "atoi_digits acc (c # cs) =
     (if isdigit_c c then atoi_digits (acc * 10 + (of_char c - 48)) cs else acc)"

text \<open>\<^verbatim>\<open>atoi\<close>: optional white space, an optional sign, then decimal digits up to the
  first character that is none (a NUL included). C leaves the result undefined when the
  number does not fit an \<^verbatim>\<open>int\<close>; the model gives the number itself, and the casts to
  \<^verbatim>\<open>u8\<close> and \<^verbatim>\<open>u16\<close> at the call sites reduce it.\<close>

definition atoi :: "string \<Rightarrow> int" where
  "atoi s =
     (case dropWhile isspace_c s of
        [] \<Rightarrow> 0
      | c # cs \<Rightarrow>
          if c = CHR ''-'' then - atoi_digits 0 cs
          else if c = CHR ''+'' then atoi_digits 0 cs
          else atoi_digits 0 (c # cs))"

text \<open>\<^verbatim>\<open>strncpy(dst, src, n)\<close> and \<^verbatim>\<open>snprintf(dst, n, "...")\<close> into a command buffer of at
  least \<open>n\<close> bytes, as the string left in \<open>dst\<close>: \<^verbatim>\<open>strncpy\<close> keeps the first \<open>n\<close>
  characters, \<^verbatim>\<open>snprintf\<close> the first \<open>n - 1\<close>. (When \<open>src\<close> has \<open>n\<close> characters or more,
  \<^verbatim>\<open>strncpy\<close> writes no terminator; the model then keeps the \<open>n\<close> characters.)\<close>

definition os_strncpy :: "string \<Rightarrow> nat \<Rightarrow> string" where
  "os_strncpy src n = take n src"

definition os_snprintf :: "nat \<Rightarrow> string \<Rightarrow> string" where
  "os_snprintf n formatted = take (n - 1) formatted"

text \<open>The digits of \<^verbatim>\<open>"%x"\<close>.\<close>

fun hex :: "nat \<Rightarrow> string" where
  "hex n =
     (if n < 16 then [''0123456789abcdef'' ! n]
      else hex (n div 16) @ [''0123456789abcdef'' ! (n mod 16)])"

declare hex.simps [simp del]

subsection \<open>Byte buffers\<close>

definition bytes_of :: "string \<Rightarrow> byte list" where
  "bytes_of s = map of_char s"

text \<open>The first \<open>n\<close> bytes of a string literal, which ends in a NUL.\<close>

definition literal_bytes :: "byte list \<Rightarrow> nat \<Rightarrow> byte list option" where
  "literal_bytes lit n = (if n \<le> length lit + 1 then Some (take n (lit @ [0])) else None)"

text \<open>\<^verbatim>\<open>memcpy(&buf[i], src, length src)\<close>.\<close>

definition os_memcpy :: "byte list \<Rightarrow> nat \<Rightarrow> byte list \<Rightarrow> byte list option" where
  "os_memcpy buf i src =
     (if i + length src \<le> length buf
      then Some (take i buf @ src @ drop (i + length src) buf)
      else None)"

text \<open>\<^verbatim>\<open>strlen\<close> of the string in a buffer, undefined when the buffer holds no NUL.\<close>

definition strlen_buf :: "byte list \<Rightarrow> nat option" where
  "strlen_buf buf = (if 0 \<in> set buf then Some (length (takeWhile (\<lambda>b. b \<noteq> 0) buf)) else None)"

text \<open>A buffer with the write position \<^verbatim>\<open>bp\<close>; \<open>put b\<close> is \<^verbatim>\<open>buf[bp++] = b\<close>.\<close>

type_synonym writer = "byte list \<times> nat"

definition put :: "byte \<Rightarrow> writer \<Rightarrow> writer option" where
  "put b w =
     (case w of (buf, bp) \<Rightarrow> if bp < length buf then Some (buf[bp := b], bp + 1) else None)"

section \<open>The constants of the headers\<close>

text \<open>
  The macros below are defined in \<^verbatim>\<open>driver_cmd_wext.h\<close>, \<^verbatim>\<open>driver_cmd_common.h\<close> and
  \<^verbatim>\<open>defs.h\<close>, which are not part of the sources at hand. The model takes them as a
  parameter \<open>k\<close>; a theorem that needs a relation between them states it as a hypothesis.
\<close>

record wext_consts =
  WEXT_CSCAN_HEADER :: "byte list"
  WEXT_CSCAN_HEADER_SIZE :: nat
  WEXT_CSCAN_CHANNEL_SECTION :: byte
  WEXT_CSCAN_PASV_DWELL_SECTION :: byte
  WEXT_CSCAN_HOME_DWELL_SECTION :: byte
  WEXT_CSCAN_TYPE_SECTION :: byte
  WEXT_CSCAN_TYPE_PASSIVE :: byte
  WEXT_CSCAN_PASV_DWELL_TIME_DEF :: int
  WEXT_CSCAN_PASV_DWELL_TIME_MAX :: int
  WEXT_CSCAN_HOME_DWELL_TIME :: int
  WEXT_NUMBER_SCAN_CHANNELS_ETSI :: int
  WEXT_NUMBER_SCAN_CHANNELS_MKK1 :: int
  WEXT_PNOSETUP_HEADER :: "byte list"
  WEXT_PNOSETUP_HEADER_SIZE :: nat
  WEXT_PNO_TLV_PREFIX :: byte
  WEXT_PNO_TLV_VERSION :: byte
  WEXT_PNO_TLV_SUBVERSION :: byte
  WEXT_PNO_TLV_RESERVED :: byte
  WEXT_PNO_AMOUNT :: nat
  WEXT_PNO_SSID_SECTION :: byte
  WEXT_PNO_SSID_HEADER_SIZE :: nat
  WEXT_PNO_NONSSID_SECTIONS_SIZE :: nat
  WEXT_PNO_MAX_COMMAND_SIZE :: nat
  WEXT_PNO_SCAN_INTERVAL_SECTION :: byte
  WEXT_PNO_SCAN_INTERVAL_LENGTH :: nat
  WEXT_PNO_SCAN_INTERVAL :: nat
  WEXT_PNO_REPEAT_SECTION :: byte
  WEXT_PNO_REPEAT_LENGTH :: nat
  WEXT_PNO_REPEAT :: nat
  WEXT_PNO_MAX_REPEAT_SECTION :: byte
  WEXT_PNO_MAX_REPEAT_LENGTH :: nat
  WEXT_PNO_MAX_REPEAT :: nat
  DRV_NUMBER_SEQUENTIAL_ERRORS :: int
  MAX_DRV_CMD_SIZE :: nat
  WPA_SCANNING :: int
  WPA_COMPLETED :: int

section \<open>The CSCAN encoder\<close>

text \<open>Lines 134 to 142 of \<^verbatim>\<open>wpa_driver_wext_set_cscan_params\<close>: the dwell time after
  \<^verbatim>\<open>",TIME="\<close>, where the command is cut, and the channel after the five characters of
  \<^verbatim>\<open>CSCAN\<close>. The result is the command as cut, \<^verbatim>\<open>pasv_dwell\<close> and \<^verbatim>\<open>channel\<close>.\<close>

definition cscan_parse :: "wext_consts \<Rightarrow> string \<Rightarrow> string \<times> 16 word \<times> byte" where
  "cscan_parse k cmd =
     (case os_strstr cmd '',TIME='' of
        None \<Rightarrow>
          (cmd, word_of_int (WEXT_CSCAN_PASV_DWELL_TIME_DEF k), word_of_int (atoi (drop 5 cmd)))
      | Some p \<Rightarrow>
          (let pasv_dwell = (word_of_int (atoi (drop (p + 6) cmd)) :: 16 word);
               pasv_dwell = (if pasv_dwell = 0
                             then word_of_int (WEXT_CSCAN_PASV_DWELL_TIME_DEF k)
                             else pasv_dwell)
           in (take p cmd, pasv_dwell, word_of_int (atoi (drop 5 (cmd[p := CHR 0x00]))))))"

text \<open>The loop of lines 152 to 157, which repeats the channel section \<open>i\<close> times as long
  as \<^verbatim>\<open>bp + 12\<close> stays below \<^verbatim>\<open>buf_len\<close>.\<close>

function cscan_repeat :: "wext_consts \<Rightarrow> nat \<Rightarrow> byte \<Rightarrow> int \<Rightarrow> writer \<Rightarrow> writer option" where
  "cscan_repeat k buf_len channel i w =
     (if i > 0 then
        if snd w + 12 \<ge> buf_len then Some w
        else do {
          w \<leftarrow> put (WEXT_CSCAN_CHANNEL_SECTION k) w;
          w \<leftarrow> put channel w;
          cscan_repeat k buf_len channel (i - 1) w
        }
      else Some w)"
  by pat_completeness auto
termination
  by (relation "measure (\<lambda>(k, buf_len, channel, i, w). nat i)") auto

declare cscan_repeat.simps [simp del]

text \<open>\<^verbatim>\<open>wpa_driver_wext_set_cscan_params(buf, buf_len, cmd)\<close>: the value returned, the buffer
  and the command as the call leaves them. \<^verbatim>\<open>cmd + 5\<close> points into the command only when
  it has five characters.\<close>

definition wpa_driver_wext_set_cscan_params ::
  "wext_consts \<Rightarrow> byte list \<Rightarrow> nat \<Rightarrow> string \<Rightarrow> (int \<times> byte list \<times> string) option" where
  "wpa_driver_wext_set_cscan_params k buf buf_len cmd =
     (if length cmd < 5 then None
      else case cscan_parse k cmd of (cmd', pasv_dwell, channel) \<Rightarrow> do {
        header \<leftarrow> literal_bytes (WEXT_CSCAN_HEADER k) (WEXT_CSCAN_HEADER_SIZE k);
        buf \<leftarrow> os_memcpy buf 0 header;
        w \<leftarrow> put (WEXT_CSCAN_CHANNEL_SECTION k) (buf, WEXT_CSCAN_HEADER_SIZE k);
        w \<leftarrow> put channel w;
        (w, pasv_dwell) \<leftarrow>
          (if channel \<noteq> 0 then
             if WEXT_CSCAN_PASV_DWELL_TIME_DEF k = 0 then None
             else do {
               w \<leftarrow> cscan_repeat k buf_len channel
                      ((uint pasv_dwell - 1) sdiv WEXT_CSCAN_PASV_DWELL_TIME_DEF k) w;
               Some (w, pasv_dwell)
             }
           else if uint pasv_dwell > WEXT_CSCAN_PASV_DWELL_TIME_MAX k
             then Some (w, word_of_int (WEXT_CSCAN_PASV_DWELL_TIME_MAX k))
             else Some (w, pasv_dwell));
        w \<leftarrow> put (WEXT_CSCAN_PASV_DWELL_SECTION k) w;
        w \<leftarrow> (if channel \<noteq> 0 then do {
               w \<leftarrow> put (word_of_int (WEXT_CSCAN_PASV_DWELL_TIME_DEF k)) w;
               put (word_of_int (drop_bit 8 (WEXT_CSCAN_PASV_DWELL_TIME_DEF k))) w
             } else do {
               w \<leftarrow> put (ucast pasv_dwell) w;
               put (ucast (drop_bit 8 pasv_dwell)) w
             });
        w \<leftarrow> put (WEXT_CSCAN_HOME_DWELL_SECTION k) w;
        w \<leftarrow> put (word_of_int (WEXT_CSCAN_HOME_DWELL_TIME k)) w;
        w \<leftarrow> put (word_of_int (drop_bit 8 (WEXT_CSCAN_HOME_DWELL_TIME k))) w;
        w \<leftarrow> put (WEXT_CSCAN_TYPE_SECTION k) w;
        w \<leftarrow> put (WEXT_CSCAN_TYPE_PASSIVE k) w;
        Some (int (snd w), fst w, cmd')
      })"

section \<open>Driver data, the supplicant and the kernel\<close>

text \<open>A configured network, \<^verbatim>\<open>struct wpa_ssid\<close>, with the fields the shim reads; the list
  linked by \<^verbatim>\<open>next\<close> is a HOL list, and \<^verbatim>\<open>ssid_len\<close> is the number of bytes \<^verbatim>\<open>ssid\<close>
  points to.\<close>

record wpa_ssid =
  disabled :: int
  ssid :: "byte list"

definition ssid_len :: "wpa_ssid \<Rightarrow> nat" where
  "ssid_len s = length (ssid s)"

text \<open>\<^verbatim>\<open>struct wpa_supplicant\<close>: \<open>conf\<close> is \<open>None\<close> for a null \<^verbatim>\<open>conf\<close> pointer and the list
  \<^verbatim>\<open>conf->ssid\<close> otherwise; \<open>wpa_state\<close> is the number of the \<^verbatim>\<open>enum wpa_states\<close> value.\<close>

record wpa_supplicant =
  scanning :: int
  wpa_state :: int
  conf :: "wpa_ssid list option"

text \<open>\<^verbatim>\<open>struct wpa_driver_wext_data\<close>; \<open>ctx\<close> is \<open>None\<close> for a null \<^verbatim>\<open>ctx\<close> pointer.\<close>

record wpa_driver_wext_data =
  driver_is_started :: bool
  bgscan_enabled :: int
  errors :: int
  scan_complete_events :: int
  ctx :: "wpa_supplicant option"

text \<open>What the shim does to the outside, in the order of the calls.\<close>

datatype effect =
    Ioctl_SIOCSIWPRIV "byte list" nat
  | Driver_state_event string
  | Linux_set_iface_flags int
  | Eloop_cancel_timeout
  | Eloop_register_timeout nat
  | Notify_scanning int

text \<open>What the shim cannot know: the bytes the local array of
  \<^verbatim>\<open>wpa_driver_set_backgroundscan_params\<close> holds before it is written, the value the
  kernel returns from the ioctl on the PNO buffer, and the value it returns from the ioctl
  on a command together with the buffer as it leaves it.\<close>

record kernel =
  uninit :: "nat \<Rightarrow> byte"
  ioctl_pnosetup :: "byte list \<Rightarrow> nat \<Rightarrow> int"
  ioctl_cmd :: "byte list \<Rightarrow> nat \<Rightarrow> int \<times> byte list"

definition IW_ESSID_MAX_SIZE :: nat where
  \<comment> \<open>Modelled from the spec: the macro comes from \<^verbatim>\<open>wireless_copy.h\<close>, which is not among
     the sources; the spec skips entries with an SSID longer than 32 bytes.\<close>
  "IW_ESSID_MAX_SIZE = 32"

definition RSSI_CMD :: string where
  \<comment> \<open>Modelled from the spec: the macro comes from \<^verbatim>\<open>driver_cmd_common.h\<close>, which is not
     among the sources; the spec names RSSI as the query answered with the reply's length.\<close>
  "RSSI_CMD = ''RSSI''"

definition LINKSPEED_CMD :: string where
  \<comment> \<open>Modelled from the spec: as \<open>RSSI_CMD\<close>; the spec names LINKSPEED.\<close>
  "LINKSPEED_CMD = ''LINKSPEED''"

definition spec_scan_channels_etsi :: int where
  \<comment> \<open>Modelled from the spec: \<^verbatim>\<open>WEXT_NUMBER_SCAN_CHANNELS_ETSI\<close> is defined in
     \<^verbatim>\<open>driver_cmd_wext.h\<close>, which is not among the sources; the spec gives 14 as the ETSI
     channel count. The value is used only where a theorem says so.\<close>
  "spec_scan_channels_etsi = 14"

section \<open>The country code of a channel count\<close>

definition wpa_driver_get_country_code :: "wext_consts \<Rightarrow> int \<Rightarrow> string" where
  "wpa_driver_get_country_code k channels =
     (if channels = WEXT_NUMBER_SCAN_CHANNELS_ETSI k then ''EU''
      else if channels = WEXT_NUMBER_SCAN_CHANNELS_MKK1 k then ''JP''
      else ''US'')"

section \<open>The PNO setup encoder\<close>

text \<open>\<^verbatim>\<open>os_snprintf(&buf[i], n, "%x", v)\<close>: at most \<open>n - 1\<close> digits and a NUL.\<close>

definition os_snprintf_x :: "byte list \<Rightarrow> nat \<Rightarrow> nat \<Rightarrow> nat \<Rightarrow> byte list option" where
  "os_snprintf_x buf i n v =
     (if n = 0 then Some buf else os_memcpy buf i (bytes_of (take (n - 1) (hex v)) @ [0]))"

text \<open>Lines 219 to 224: the header and the TLV preamble in the local array of
  \<^verbatim>\<open>WEXT_PNO_MAX_COMMAND_SIZE\<close> bytes.\<close>

definition pno_header :: "wext_consts \<Rightarrow> kernel \<Rightarrow> writer option" where
  "pno_header k e = do {
     header \<leftarrow> literal_bytes (WEXT_PNOSETUP_HEADER k) (WEXT_PNOSETUP_HEADER_SIZE k);
     buf \<leftarrow> os_memcpy (map (uninit e) [0..<WEXT_PNO_MAX_COMMAND_SIZE k]) 0 header;
     w \<leftarrow> put (WEXT_PNO_TLV_PREFIX k) (buf, WEXT_PNOSETUP_HEADER_SIZE k);
     w \<leftarrow> put (WEXT_PNO_TLV_VERSION k) w;
     w \<leftarrow> put (WEXT_PNO_TLV_SUBVERSION k) w;
     put (WEXT_PNO_TLV_RESERVED k) w
   }"

text \<open>The loop of lines 226 to 239 over the configured networks, \<open>i\<close> counting the SSID
  sections written. The result is \<open>i\<close> and the writer when the loop ends.\<close>

fun pno_ssid_loop ::
  "wext_consts \<Rightarrow> nat \<Rightarrow> wpa_ssid list \<Rightarrow> writer \<Rightarrow> (nat \<times> writer) option" where
  "pno_ssid_loop k i [] w = Some (i, w)"
| "pno_ssid_loop k i (ssid_conf # next) w =
     (if i < WEXT_PNO_AMOUNT k then
        if snd w + WEXT_PNO_SSID_HEADER_SIZE k + IW_ESSID_MAX_SIZE
             + WEXT_PNO_NONSSID_SECTIONS_SIZE k + 1 \<ge> WEXT_PNO_MAX_COMMAND_SIZE k
        then Some (i, w)
        else if disabled ssid_conf = 0 \<and> ssid_len ssid_conf \<le> IW_ESSID_MAX_SIZE then do {
          w \<leftarrow> put (WEXT_PNO_SSID_SECTION k) w;
          w \<leftarrow> put (of_nat (ssid_len ssid_conf)) w;
          buf \<leftarrow> os_memcpy (fst w) (snd w) (ssid ssid_conf);
          pno_ssid_loop k (i + 1) next (buf, snd w + ssid_len ssid_conf)
        }
        else pno_ssid_loop k i next w
      else Some (i, w))"

text \<open>Lines 241 to 251: the scan interval, the repeat and the maximal repeat sections.\<close>

definition pno_trailer :: "wext_consts \<Rightarrow> writer \<Rightarrow> writer option" where
  "pno_trailer k w = do {
     w \<leftarrow> put (WEXT_PNO_SCAN_INTERVAL_SECTION k) w;
     buf \<leftarrow> os_snprintf_x (fst w) (snd w) (WEXT_PNO_SCAN_INTERVAL_LENGTH k + 1)
              (WEXT_PNO_SCAN_INTERVAL k);
     w \<leftarrow> put (WEXT_PNO_REPEAT_SECTION k) (buf, snd w + WEXT_PNO_SCAN_INTERVAL_LENGTH k);
     buf \<leftarrow> os_snprintf_x (fst w) (snd w) (WEXT_PNO_REPEAT_LENGTH k + 1) (WEXT_PNO_REPEAT k);
     w \<leftarrow> put (WEXT_PNO_MAX_REPEAT_SECTION k) (buf, snd w + WEXT_PNO_REPEAT_LENGTH k);
     buf \<leftarrow> os_snprintf_x (fst w) (snd w) (WEXT_PNO_MAX_REPEAT_LENGTH k + 1)
              (WEXT_PNO_MAX_REPEAT k);
     Some (buf, snd w + WEXT_PNO_MAX_REPEAT_LENGTH k + 1)
   }"

text \<open>Lines 219 to 251: the buffer and \<^verbatim>\<open>bp\<close> handed to the ioctl.\<close>

definition pno_setup_buffer :: "wext_consts \<Rightarrow> kernel \<Rightarrow> wpa_ssid list \<Rightarrow> writer option" where
  "pno_setup_buffer k e ssid_conf = do {
     w \<leftarrow> pno_header k e;
     (i, w) \<leftarrow> pno_ssid_loop k 0 ssid_conf w;
     pno_trailer k w
   }"

text \<open>\<^verbatim>\<open>wpa_driver_set_backgroundscan_params\<close>: the value returned, the driver data and the
  effects. (\<^verbatim>\<open>drv\<close> itself is not null: the only caller has read \<^verbatim>\<open>drv->ctx\<close> before.)\<close>

definition wpa_driver_set_backgroundscan_params ::
  "wext_consts \<Rightarrow> kernel \<Rightarrow> wpa_driver_wext_data
     \<Rightarrow> (int \<times> wpa_driver_wext_data \<times> effect list) option" where
  "wpa_driver_set_backgroundscan_params k e drv =
     (case ctx drv of
        None \<Rightarrow> Some (- 1, drv, [])
      | Some wpa_s \<Rightarrow>
          (case conf wpa_s of
             None \<Rightarrow> Some (- 1, drv, [])
           | Some ssid_conf \<Rightarrow> do {
               (buf, bp) \<leftarrow> pno_setup_buffer k e ssid_conf;
               let ret = ioctl_pnosetup e buf bp;
               if ret < 0 then
                 let drv = drv\<lparr>errors := errors drv + 1\<rparr> in
                 if errors drv > DRV_NUMBER_SEQUENTIAL_ERRORS k
                 then Some (ret, drv\<lparr>errors := 0\<rparr>,
                            [Ioctl_SIOCSIWPRIV buf bp, Driver_state_event ''HANGED''])
                 else Some (ret, drv, [Ioctl_SIOCSIWPRIV buf bp])
               else Some (ret, drv\<lparr>errors := 0\<rparr>, [Ioctl_SIOCSIWPRIV buf bp])
             }))"

text \<open>Calls of \<^verbatim>\<open>wpa_driver_set_backgroundscan_params\<close> one after the other, one kernel
  behaviour for each call.\<close>

fun backgroundscan_calls ::
  "wext_consts \<Rightarrow> kernel list \<Rightarrow> wpa_driver_wext_data
     \<Rightarrow> (wpa_driver_wext_data \<times> effect list) option" where
  "backgroundscan_calls k [] drv = Some (drv, [])"
| "backgroundscan_calls k (e # es) drv = do {
     (ret, drv, fx) \<leftarrow> wpa_driver_set_backgroundscan_params k e drv;
     (drv, fx') \<leftarrow> backgroundscan_calls k es drv;
     Some (drv, fx @ fx')
   }"

section \<open>The command dispatcher\<close>

text \<open>What a call of \<^verbatim>\<open>wpa_driver_wext_driver_cmd\<close> leaves behind: the value returned, the
  driver data, the command and the reply buffer, and the effects.\<close>

record cmd_result =
  ret :: int
  drv_after :: wpa_driver_wext_data
  cmd_after :: string
  buf_after :: "byte list"
  effects :: "effect list"

text \<open>Lines 288 to 312. The first component is \<open>True\<close> when the branch returns from the
  function; then come \<^verbatim>\<open>ret\<close>, the driver data, the command and the effects.\<close>

definition driver_cmd_rewrite ::
  "wext_consts \<Rightarrow> kernel \<Rightarrow> wpa_driver_wext_data \<Rightarrow> string
     \<Rightarrow> (bool \<times> int \<times> wpa_driver_wext_data \<times> string \<times> effect list) option" where
  "driver_cmd_rewrite k e drv cmd =
     (if os_strcasecmp cmd ''RSSI-APPROX'' = 0 then
        Some (False, 0, drv, os_strncpy RSSI_CMD (MAX_DRV_CMD_SIZE k), [])
      else if os_strncasecmp cmd ''SCAN-CHANNELS'' 13 = 0 then
        (let no_of_chan = atoi (drop 13 cmd) in
         Some (False, 0, drv,
               os_snprintf (MAX_DRV_CMD_SIZE k)
                 (''COUNTRY '' @ wpa_driver_get_country_code k no_of_chan), []))
      else if os_strcasecmp cmd ''STOP'' = 0 then
        Some (False, 0, drv, cmd, [Linux_set_iface_flags 0])
      else if os_strcasecmp cmd ''RELOAD'' = 0 then
        Some (True, 0, drv, cmd, [Driver_state_event ''HANGED''])
      else if os_strcasecmp cmd ''BGSCAN-START'' = 0 then do {
        (ret, drv, fx) \<leftarrow> wpa_driver_set_backgroundscan_params k e drv;
        if ret < 0 then Some (True, ret, drv, cmd, fx)
        else Some (False, ret, drv\<lparr>bgscan_enabled := 1\<rparr>,
                   os_strncpy ''PNOFORCE 1'' (MAX_DRV_CMD_SIZE k), fx)
      }
      else if os_strcasecmp cmd ''BGSCAN-STOP'' = 0 then
        Some (False, 0, drv\<lparr>bgscan_enabled := 0\<rparr>,
              os_strncpy ''PNOFORCE 0'' (MAX_DRV_CMD_SIZE k), [])
      else Some (False, 0, drv, cmd, []))"

text \<open>\<^verbatim>\<open>wpa_driver_wext_set_scan_timeout\<close>.\<close>

definition wpa_driver_wext_set_scan_timeout :: "wpa_driver_wext_data \<Rightarrow> effect list" where
  "wpa_driver_wext_set_scan_timeout drv =
     (let timeout = (if scan_complete_events drv \<noteq> 0 then 30 else 10)
      in [Eloop_cancel_timeout, Eloop_register_timeout timeout])"

text \<open>Lines 329 to 370: the ioctl, the overwritten \<^verbatim>\<open>ret\<close> and the two branches on it.
  \<open>len\<close> is the value assigned to \<^verbatim>\<open>iwr.u.data.length\<close>, \<open>fx\<close> the effects so far. The
  \<^verbatim>\<open>int\<close> values \<^verbatim>\<open>ret\<close> and \<^verbatim>\<open>drv->errors\<close> are integers of HOL: the counter stays
  within one step of the threshold, and \<^verbatim>\<open>strlen(buf)\<close> is the length of a string in a reply
  buffer, which is far below \<open>2 ^ 31\<close>.\<close>

definition driver_cmd_ioctl ::
  "wext_consts \<Rightarrow> kernel \<Rightarrow> wpa_driver_wext_data \<Rightarrow> string \<Rightarrow> byte list \<Rightarrow> nat
     \<Rightarrow> effect list \<Rightarrow> cmd_result option" where
  "driver_cmd_ioctl k e drv cmd buf len fx =
     (let (ret, reply) = ioctl_cmd e buf len;
          fx = fx @ [Ioctl_SIOCSIWPRIV buf len];
          buf = reply;
          ret = (0 :: int)
      in if ret < 0 then
           (let drv = drv\<lparr>errors := errors drv + 1\<rparr> in
            if errors drv > DRV_NUMBER_SEQUENTIAL_ERRORS k
            then Some \<lparr>ret = ret, drv_after = drv\<lparr>errors := 0\<rparr>, cmd_after = cmd,
                       buf_after = buf, effects = fx @ [Driver_state_event ''HANGED'']\<rparr>
            else Some \<lparr>ret = ret, drv_after = drv, cmd_after = cmd, buf_after = buf,
                       effects = fx\<rparr>)
         else
           (let drv = drv\<lparr>errors := 0\<rparr>; ret = (0 :: int) in
            if os_strcasecmp cmd RSSI_CMD = 0 \<or> os_strcasecmp cmd LINKSPEED_CMD = 0
               \<or> os_strcasecmp cmd ''MACADDR'' = 0 \<or> os_strcasecmp cmd ''GETPOWER'' = 0
               \<or> os_strcasecmp cmd ''GETBAND'' = 0 then do {
              n \<leftarrow> strlen_buf buf;
              Some \<lparr>ret = int n, drv_after = drv, cmd_after = cmd, buf_after = buf,
                    effects = fx\<rparr>
            }
            else if os_strcasecmp cmd ''START'' = 0 then
              Some \<lparr>ret = ret, drv_after = drv\<lparr>driver_is_started := True\<rparr>, cmd_after = cmd,
                    buf_after = buf, effects = fx @ [Linux_set_iface_flags 1]\<rparr>
            else if os_strcasecmp cmd ''STOP'' = 0 then
              Some \<lparr>ret = ret, drv_after = drv\<lparr>driver_is_started := False\<rparr>, cmd_after = cmd,
                    buf_after = buf, effects = fx\<rparr>
            else if os_strncasecmp cmd ''CSCAN'' 5 = 0 then
              Some \<lparr>ret = ret, drv_after = drv, cmd_after = cmd, buf_after = buf,
                    effects = fx @ wpa_driver_wext_set_scan_timeout drv @ [Notify_scanning 1]\<rparr>
            else
              Some \<lparr>ret = ret, drv_after = drv, cmd_after = cmd, buf_after = buf,
                    effects = fx\<rparr>))"

text \<open>\<^verbatim>\<open>wpa_driver_wext_driver_cmd(priv, cmd, buf, buf_len)\<close>. The buffer \<open>buf\<close> is the
  caller's allocation, \<open>buf_len\<close> the length the caller passes; \<open>cmd\<close> and \<open>buf\<close> do not
  overlap (\<^verbatim>\<open>memcpy\<close> between them is defined).\<close>

definition wpa_driver_wext_driver_cmd ::
  "wext_consts \<Rightarrow> kernel \<Rightarrow> wpa_driver_wext_data \<Rightarrow> string \<Rightarrow> byte list \<Rightarrow> nat
     \<Rightarrow> cmd_result option" where
  "wpa_driver_wext_driver_cmd k e drv cmd buf buf_len =
     (if \<not> driver_is_started drv \<and> os_strcasecmp cmd ''START'' \<noteq> 0 then
        Some \<lparr>ret = - 1, drv_after = drv, cmd_after = cmd, buf_after = buf, effects = []\<rparr>
      else do {
        (returned, ret, drv, cmd, fx) \<leftarrow> driver_cmd_rewrite k e drv cmd;
        if returned then
          Some \<lparr>ret = ret, drv_after = drv, cmd_after = cmd, buf_after = buf, effects = fx\<rparr>
        else do {
          buf \<leftarrow> os_memcpy buf 0 (bytes_of cmd @ [0]);
          if os_strncasecmp cmd ''CSCAN'' 5 = 0 then
            (case ctx drv of
               None \<Rightarrow> None
             | Some wpa_s \<Rightarrow>
                 if scanning wpa_s = 0
                    \<and> (wpa_state wpa_s \<le> WPA_SCANNING k \<or> wpa_state wpa_s \<ge> WPA_COMPLETED k)
                 then do {
                   (len, buf, cmd) \<leftarrow> wpa_driver_wext_set_cscan_params k buf buf_len cmd;
                   driver_cmd_ioctl k e drv cmd buf (nat len) fx
                 }
                 else
                   Some \<lparr>ret = ret, drv_after = drv, cmd_after = cmd, buf_after = buf,
                         effects = fx\<rparr>)
          else driver_cmd_ioctl k e drv cmd buf buf_len fx
        }
      })"

section \<open>The layouts the encoders are compared with\<close>

text \<open>The writer that has written the bytes \<open>ws\<close> from the start of \<open>buf\<close>.\<close>

definition writer_of :: "byte list \<Rightarrow> byte list \<Rightarrow> writer" where
  "writer_of buf ws = (ws @ drop (length ws) buf, length ws)"

text \<open>A CSCAN buffer as the spec lays it out: the header, \<open>n\<close> channel sections, one
  passive-dwell section with the value bytes \<open>d0\<close> (low) and \<open>d1\<close> (high), one home-dwell
  section and one scan-type section.\<close>

definition cscan_sections :: "wext_consts \<Rightarrow> nat \<Rightarrow> byte \<Rightarrow> byte \<Rightarrow> byte \<Rightarrow> byte list" where
  "cscan_sections k n channel d0 d1 =
     take (WEXT_CSCAN_HEADER_SIZE k) (WEXT_CSCAN_HEADER k @ [0])
     @ concat (replicate n [WEXT_CSCAN_CHANNEL_SECTION k, channel])
     @ [WEXT_CSCAN_PASV_DWELL_SECTION k, d0, d1]
     @ [WEXT_CSCAN_HOME_DWELL_SECTION k, word_of_int (WEXT_CSCAN_HOME_DWELL_TIME k),
        word_of_int (drop_bit 8 (WEXT_CSCAN_HOME_DWELL_TIME k))]
     @ [WEXT_CSCAN_TYPE_SECTION k, WEXT_CSCAN_TYPE_PASSIVE k]"

text \<open>An entry of the network list is eligible for PNO when it is enabled and its SSID
  has at most 32 bytes; its section is the tag, the length byte and the SSID.\<close>

definition eligible :: "wpa_ssid \<Rightarrow> bool" where
  "eligible s \<longleftrightarrow> disabled s = 0 \<and> ssid_len s \<le> 32"

definition ssid_section :: "wext_consts \<Rightarrow> wpa_ssid \<Rightarrow> byte list" where
  "ssid_section k s = [WEXT_PNO_SSID_SECTION k, of_nat (ssid_len s)] @ ssid s"

definition ssid_sections :: "wext_consts \<Rightarrow> wpa_ssid list \<Rightarrow> byte list" where
  "ssid_sections k ss = concat (map (ssid_section k) ss)"

text \<open>The header and the TLV preamble of a PNO buffer.\<close>

definition pno_preamble :: "wext_consts \<Rightarrow> byte list" where
  "pno_preamble k =
     take (WEXT_PNOSETUP_HEADER_SIZE k) (WEXT_PNOSETUP_HEADER k @ [0])
     @ [WEXT_PNO_TLV_PREFIX k, WEXT_PNO_TLV_VERSION k, WEXT_PNO_TLV_SUBVERSION k,
        WEXT_PNO_TLV_RESERVED k]"

text \<open>The entries the loop over the networks takes, as a function of the list alone:
  \<open>i\<close> sections are written already and \<open>bp\<close> bytes of the buffer are used.\<close>

fun pno_taken :: "wext_consts \<Rightarrow> nat \<Rightarrow> nat \<Rightarrow> wpa_ssid list \<Rightarrow> wpa_ssid list" where
  "pno_taken k i bp [] = []"
| "pno_taken k i bp (s # next) =
     (if i < WEXT_PNO_AMOUNT k
         \<and> bp + WEXT_PNO_SSID_HEADER_SIZE k + 32 + WEXT_PNO_NONSSID_SECTIONS_SIZE k + 1
             < WEXT_PNO_MAX_COMMAND_SIZE k
      then if eligible s then s # pno_taken k (i + 1) (bp + 2 + ssid_len s) next
           else pno_taken k i bp next
      else [])"

section \<open>Concrete inputs\<close>

text \<open>One setting of the constants: the PNO buffer is dimensioned for the header, the
  preamble, \<^verbatim>\<open>WEXT_PNO_AMOUNT\<close> SSID sections of maximal size, the three trailing sections
  and a NUL. The channel counts are the spec's (14 for ETSI).\<close>

definition example_consts :: wext_consts where
  "example_consts = \<lparr>
     WEXT_CSCAN_HEADER = [0x43, 0x53, 0x43, 0x41, 0x4E, 0x20, 0x53, 0x01, 0x00, 0x00, 0x53, 0x00],
     WEXT_CSCAN_HEADER_SIZE = 12,
     WEXT_CSCAN_CHANNEL_SECTION = 0x43,
     WEXT_CSCAN_PASV_DWELL_SECTION = 0x50,
     WEXT_CSCAN_HOME_DWELL_SECTION = 0x48,
     WEXT_CSCAN_TYPE_SECTION = 0x54,
     WEXT_CSCAN_TYPE_PASSIVE = 1,
     WEXT_CSCAN_PASV_DWELL_TIME_DEF = 250,
     WEXT_CSCAN_PASV_DWELL_TIME_MAX = 3000,
     WEXT_CSCAN_HOME_DWELL_TIME = 130,
     WEXT_NUMBER_SCAN_CHANNELS_ETSI = 14,
     WEXT_NUMBER_SCAN_CHANNELS_MKK1 = 13,
     WEXT_PNOSETUP_HEADER = [0x50, 0x4E, 0x4F, 0x53, 0x45, 0x54, 0x55, 0x50, 0x20],
     WEXT_PNOSETUP_HEADER_SIZE = 9,
     WEXT_PNO_TLV_PREFIX = 0x53,
     WEXT_PNO_TLV_VERSION = 0x31,
     WEXT_PNO_TLV_SUBVERSION = 0x32,
     WEXT_PNO_TLV_RESERVED = 0x30,
     WEXT_PNO_AMOUNT = 16,
     WEXT_PNO_SSID_SECTION = 0x53,
     WEXT_PNO_SSID_HEADER_SIZE = 2,
     WEXT_PNO_NONSSID_SECTIONS_SIZE = 7,
     WEXT_PNO_MAX_COMMAND_SIZE = 565,
     WEXT_PNO_SCAN_INTERVAL_SECTION = 0x54,
     WEXT_PNO_SCAN_INTERVAL_LENGTH = 2,
     WEXT_PNO_SCAN_INTERVAL = 30,
     WEXT_PNO_REPEAT_SECTION = 0x52,
     WEXT_PNO_REPEAT_LENGTH = 1,
     WEXT_PNO_REPEAT = 4,
     WEXT_PNO_MAX_REPEAT_SECTION = 0x4D,
     WEXT_PNO_MAX_REPEAT_LENGTH = 1,
     WEXT_PNO_MAX_REPEAT = 3,
     DRV_NUMBER_SEQUENTIAL_ERRORS = 4,
     MAX_DRV_CMD_SIZE = 248,
     WPA_SCANNING = 3,
     WPA_COMPLETED = 9
   \<rparr>"

text \<open>Reply buffers of 24 and of 32 bytes.\<close>

definition buf24 :: "byte list" where
  "buf24 = [0, 0, 0, 0, 0, 0, 0, 0, 0, 0, 0, 0, 0, 0, 0, 0, 0, 0, 0, 0, 0, 0, 0, 0]"

definition buf32 :: "byte list" where
  "buf32 = [0, 0, 0, 0, 0, 0, 0, 0, 0, 0, 0, 0, 0, 0, 0, 0, 0, 0, 0, 0, 0, 0, 0, 0, 0, 0, 0, 0, 0, 0, 0, 0]"

text \<open>A kernel whose ioctls succeed and one whose ioctls fail with -1. Both leave the
  buffer as it is but for a NUL in its last byte; the local array starts as zeros.\<close>

definition example_kernel :: kernel where
  "example_kernel =
     \<lparr>uninit = (\<lambda>_. 0), ioctl_pnosetup = (\<lambda>_ _. 0),
      ioctl_cmd = (\<lambda>buf _. (0, butlast buf @ [0]))\<rparr>"

definition failing_kernel :: kernel where
  "failing_kernel =
     \<lparr>uninit = (\<lambda>_. 0), ioctl_pnosetup = (\<lambda>_ _. - 1),
      ioctl_cmd = (\<lambda>buf _. (- 1, butlast buf @ [0]))\<rparr>"

text \<open>Configured networks: two with short SSIDs, a disabled one, one with an SSID of 33
  bytes and one with an SSID of 32 bytes.\<close>

definition net_home :: wpa_ssid where
  "net_home = \<lparr>disabled = 0, ssid = [0x68, 0x6F, 0x6D, 0x65]\<rparr>"

definition net_off :: wpa_ssid where
  "net_off = \<lparr>disabled = 1, ssid = [0x6F, 0x66, 0x66]\<rparr>"

definition net_long :: wpa_ssid where
  "net_long = \<lparr>disabled = 0, ssid =
     [0x41, 0x41, 0x41, 0x41, 0x41, 0x41, 0x41, 0x41, 0x41, 0x41, 0x41, 0x41, 0x41, 0x41, 0x41, 0x41,
      0x41, 0x41, 0x41, 0x41, 0x41, 0x41, 0x41, 0x41, 0x41, 0x41, 0x41, 0x41, 0x41, 0x41, 0x41, 0x41,
      0x41]\<rparr>"

definition net_cafe :: wpa_ssid where
  "net_cafe = \<lparr>disabled = 0, ssid = [0x63, 0x61, 0x66, 0x65]\<rparr>"

definition net_max :: wpa_ssid where
  "net_max = \<lparr>disabled = 0, ssid =
     [0x41, 0x41, 0x41, 0x41, 0x41, 0x41, 0x41, 0x41, 0x41, 0x41, 0x41, 0x41, 0x41, 0x41, 0x41, 0x41,
      0x41, 0x41, 0x41, 0x41, 0x41, 0x41, 0x41, 0x41, 0x41, 0x41, 0x41, 0x41, 0x41, 0x41, 0x41, 0x41]\<rparr>"

text \<open>A list of five networks, three of them eligible, and a list of seventeen networks
  with SSIDs of maximal length.\<close>

definition networks5 :: "wpa_ssid list" where
  "networks5 = [net_home, net_off, net_long, net_cafe, net_max]"

definition networks17 :: "wpa_ssid list" where
  "networks17 = [net_max, net_max, net_max, net_max, net_max, net_max, net_max, net_max,
                 net_max, net_max, net_max, net_max, net_max, net_max, net_max, net_max, net_max]"

text \<open>The same constants with one more byte in the PNO buffer.\<close>

definition roomy_consts :: wext_consts where
  "roomy_consts = example_consts\<lparr>WEXT_PNO_MAX_COMMAND_SIZE := 566\<rparr>"

text \<open>The event \<^verbatim>\<open>WPA_EVENT_DRIVER_STATE "HANGED"\<close>.\<close>

definition HANGED :: effect where
  "HANGED = Driver_state_event ''HANGED''"

text \<open>A supplicant that is connected and not scanning, one that is scanning, and driver
  data in the started and in the stopped state.\<close>

definition example_wpa_s :: wpa_supplicant where
  "example_wpa_s = \<lparr>scanning = 0, wpa_state = 9, conf = Some networks5\<rparr>"

definition scanning_wpa_s :: wpa_supplicant where
  "scanning_wpa_s = \<lparr>scanning = 1, wpa_state = 3, conf = Some networks5\<rparr>"

definition started_drv :: wpa_driver_wext_data where
  "started_drv = \<lparr>driver_is_started = True, bgscan_enabled = 0, errors = 2,
                   scan_complete_events = 0, ctx = Some example_wpa_s\<rparr>"

definition stopped_drv :: wpa_driver_wext_data where
  "stopped_drv = started_drv\<lparr>driver_is_started := False\<rparr>"

definition scanning_drv :: wpa_driver_wext_data where
  "scanning_drv = started_drv\<lparr>ctx := Some scanning_wpa_s\<rparr>"

text \<open>The reply buffer after \<^verbatim>\<open>GETBAND\<close> was copied into \<open>buf24\<close>, and what the call
  leaves behind under the failing kernel.\<close>

definition getband_buf :: "byte list" where
  "getband_buf = [0x47, 0x45, 0x54, 0x42, 0x41, 0x4E, 0x44, 0, 0, 0, 0, 0, 0, 0, 0, 0, 0, 0, 0,
                  0, 0, 0, 0, 0]"

definition getband_out :: cmd_result where
  "getband_out = \<lparr>ret = 7, drv_after = started_drv\<lparr>errors := 0\<rparr>, cmd_after = ''GETBAND'',
                   buf_after = getband_buf, effects = [Ioctl_SIOCSIWPRIV getband_buf 24]\<rparr>"

definition idle_drv :: wpa_driver_wext_data where
  "idle_drv = started_drv\<lparr>errors := 0\<rparr>"

section \<open>Strings and writers\<close>

lemma os_strcasecmp_Cons_0E:
  assumes "os_strcasecmp a (b # bs) = 0" and "tolower_c b \<noteq> CHR 0x00"
  obtains a' as where "a = a' # as" and "tolower_c a' = tolower_c b" and "os_strcasecmp as bs = 0"
proof (cases a)
  case Nil
  with assms have "(of_char (tolower_c b) :: int) = of_char (CHR 0x00)" by simp
  then have "tolower_c b = CHR 0x00" by (simp only: of_char_eq_iff)
  with assms show ?thesis by simp
next
  case (Cons a' as)
  with assms have "tolower_c a' = tolower_c b"
    by (auto simp: of_char_eq_iff split: if_splits)
  with assms Cons that show ?thesis by simp
qed

lemma take_5_eq: "take 5 cmd = [a, b, c, d, e] \<Longrightarrow> cmd = a # b # c # d # e # drop 5 cmd"
  by (metis append_take_drop_id append_Cons append_Nil)

lemma put_append:
  "put b (ws @ rest, length ws) = (if rest = [] then None else Some ((ws @ [b]) @ tl rest, length (ws @ [b])))"
  by (cases rest) (simp_all add: put_def)

lemma put_append':
  "bp = length ws \<Longrightarrow> put b (ws @ rest, bp) = (if rest = [] then None else Some ((ws @ [b]) @ tl rest, Suc bp))"
  by (cases rest) (simp_all add: put_def)

lemma cscan_repeat_append:
  "buf_len \<le> length (ws @ rest) \<Longrightarrow>
   cscan_repeat k buf_len ch i (ws @ rest, length ws) =
     (let n = min (nat i) ((buf_len - (length ws + 11)) div 2);
          cs = concat (replicate n [WEXT_CSCAN_CHANNEL_SECTION k, ch])
      in Some ((ws @ cs) @ drop (2 * n) rest, length (ws @ cs)))"
proof (induction k buf_len ch i "(ws @ rest, length ws)" arbitrary: ws rest rule: cscan_repeat.induct)
  case (1 k buf_len channel i)
  show ?case
  proof (cases "i > 0 \<and> length ws + 12 < buf_len")
    case False
    then have "min (nat i) ((buf_len - (length ws + 11)) div 2) = 0"
      by auto
    with False show ?thesis
      by (subst cscan_repeat.simps) (auto simp: Let_def)
  next
    case True
    then obtain r1 r2 rest' where rest: "rest = r1 # r2 # rest'"
      using "1.prems" by (cases rest; cases "tl rest") auto
    let ?C = "WEXT_CSCAN_CHANNEL_SECTION k"
    have p1: "put ?C (ws @ rest, length ws) = Some ((ws @ [?C]) @ r2 # rest', length (ws @ [?C]))"
      by (simp add: put_append rest)
    have p2: "put channel ((ws @ [?C]) @ r2 # rest', length (ws @ [?C]))
               = Some ((ws @ [?C, channel]) @ rest', length (ws @ [?C, channel]))"
      using put_append [of channel "ws @ [?C]" "r2 # rest'"] by simp
    have len: "buf_len \<le> length ((ws @ [?C, channel]) @ rest')"
      using "1.prems" rest by simp
    have IH: "cscan_repeat k buf_len channel (i - 1) ((ws @ [?C, channel]) @ rest', length (ws @ [?C, channel])) =
       (let n = min (nat (i - 1)) ((buf_len - (length (ws @ [?C, channel]) + 11)) div 2);
            cs = concat (replicate n [?C, channel])
        in Some (((ws @ [?C, channel]) @ cs) @ drop (2 * n) rest', length ((ws @ [?C, channel]) @ cs)))"
      using True by (intro "1.hyps"[OF _ _ p1 p2 len]) auto
    have n: "min (nat i) ((buf_len - (length ws + 11)) div 2)
              = Suc (min (nat (i - 1)) ((buf_len - (length (ws @ [?C, channel]) + 11)) div 2))"
    proof -
      have "(buf_len - (length ws + 11)) div 2 = Suc ((buf_len - (length ws + 13)) div 2)"
        using True by presburger
      moreover have "nat i = Suc (nat (i - 1))"
        using True by linarith
      ultimately show ?thesis by (simp add: add.commute)
    qed
    have c: "i > 0" "\<not> buf_len \<le> snd (ws @ rest, length ws) + 12"
      using True by auto
    have step: "cscan_repeat k buf_len channel i (ws @ rest, length ws)
                 = cscan_repeat k buf_len channel (i - 1)
                     ((ws @ [?C, channel]) @ rest', length (ws @ [?C, channel]))"
      by (subst cscan_repeat.simps) (simp only: c if_True if_False p1 p2 Option.bind.bind_lunit)
    show ?thesis
      unfolding step IH n Let_def by (simp add: rest)
  qed
qed


lemma put_W:
  "put b (writer_of buf ws) = (if length ws < length buf then Some (writer_of buf (ws @ [b])) else None)"
proof (cases "length ws < length buf")
  case True
  then have "drop (length ws) buf \<noteq> []" by simp
  moreover have "tl (drop (length ws) buf) = drop (Suc (length ws)) buf"
    by (simp add: drop_Suc tl_drop)
  ultimately show ?thesis
    using True put_append [of b ws "drop (length ws) buf"] by (simp add: writer_of_def)
next
  case False
  then show ?thesis
    using put_append [of b ws "drop (length ws) buf"] by (simp add: writer_of_def)
qed

lemma memcpy_W:
  "length ws + length src \<le> length buf \<Longrightarrow>
   os_memcpy (fst (writer_of buf ws)) (snd (writer_of buf ws)) src = Some (fst (writer_of buf (ws @ src)))"
  by (simp add: writer_of_def os_memcpy_def add.commute)

lemma memcpy_0_W:
  "length src \<le> length buf \<Longrightarrow> os_memcpy buf 0 src = Some (fst (writer_of buf src))"
  by (simp add: writer_of_def os_memcpy_def)

lemma W_pair: "(fst (writer_of buf ws), length ws) = writer_of buf ws"
  by (simp add: writer_of_def)

lemma snd_W: "snd (writer_of buf ws) = length ws"
  by (simp add: writer_of_def)

lemma fst_W: "fst (writer_of buf ws) = ws @ drop (length ws) buf"
  by (simp add: writer_of_def)

lemma cscan_repeat_W:
  assumes "buf_len \<le> length buf" and "length ws \<le> length buf"
  shows "cscan_repeat k buf_len ch i (writer_of buf ws) =
     Some (writer_of buf (ws @ concat (replicate (min (nat i) ((buf_len - (length ws + 11)) div 2))
                                 [WEXT_CSCAN_CHANNEL_SECTION k, ch])))"
proof -
  have "buf_len \<le> length (ws @ drop (length ws) buf)"
    using assms by simp
  from cscan_repeat_append [OF this, of k ch i] show ?thesis
    by (simp add: writer_of_def Let_def length_concat sum_list_replicate mult_2 ac_simps)
qed

lemma literal_bytes_length:
  "literal_bytes lit n = Some bs \<Longrightarrow> length bs = n"
  by (auto simp: literal_bytes_def split: if_splits)

lemma cscan_params_layout:
  assumes len: "5 \<le> length cmd"
    and lit: "WEXT_CSCAN_HEADER_SIZE k \<le> length (WEXT_CSCAN_HEADER k) + 1"
    and cap: "WEXT_CSCAN_HEADER_SIZE k + 10 \<le> buf_len" "buf_len \<le> length buf"
    and parse: "cscan_parse k cmd = (cmd', dwell, channel)"
    and def: "channel \<noteq> 0 \<Longrightarrow> WEXT_CSCAN_PASV_DWELL_TIME_DEF k \<noteq> 0"
    and n: "n = (if channel = 0 then 0
                 else min (nat ((uint dwell - 1) sdiv WEXT_CSCAN_PASV_DWELL_TIME_DEF k))
                          ((buf_len - (WEXT_CSCAN_HEADER_SIZE k + 13)) div 2))"
    and v: "v = (if uint dwell > WEXT_CSCAN_PASV_DWELL_TIME_MAX k
                 then word_of_int (WEXT_CSCAN_PASV_DWELL_TIME_MAX k) else dwell)"
    and d0: "d0 = (if channel \<noteq> 0 then word_of_int (WEXT_CSCAN_PASV_DWELL_TIME_DEF k) else ucast v)"
    and d1: "d1 = (if channel \<noteq> 0 then word_of_int (drop_bit 8 (WEXT_CSCAN_PASV_DWELL_TIME_DEF k))
                   else ucast (drop_bit 8 v))"
    and out: "out = cscan_sections k (Suc n) channel d0 d1"
  shows "wpa_driver_wext_set_cscan_params k buf buf_len cmd
           = Some (int (length out), out @ drop (length out) buf, cmd')"
    and "length out = WEXT_CSCAN_HEADER_SIZE k + 2 * Suc n + 8"
    and "length out \<le> buf_len"
proof -
  define H where "H = WEXT_CSCAN_HEADER_SIZE k"
  define hdr where "hdr = take H (WEXT_CSCAN_HEADER k @ [0])"
  define C where "C = WEXT_CSCAN_CHANNEL_SECTION k"
  define cs where "cs = concat (replicate n [C, channel])"
  define tail where "tail = [WEXT_CSCAN_PASV_DWELL_SECTION k, d0, d1,
     WEXT_CSCAN_HOME_DWELL_SECTION k, word_of_int (WEXT_CSCAN_HOME_DWELL_TIME k),
     word_of_int (drop_bit 8 (WEXT_CSCAN_HOME_DWELL_TIME k)),
     WEXT_CSCAN_TYPE_SECTION k, WEXT_CSCAN_TYPE_PASSIVE k]"
  have hl: "length hdr = H"
    using lit by (simp add: hdr_def H_def)
  have cl: "length cs = 2 * n"
    by (simp add: cs_def length_concat sum_list_replicate)
  have out': "out = hdr @ [C, channel] @ cs @ tail"
    by (simp add: out cscan_sections_def hdr_def H_def C_def cs_def tail_def)
  show lo: "length out = WEXT_CSCAN_HEADER_SIZE k + 2 * Suc n + 8"
    by (simp add: out' hl cl tail_def H_def)
  have nb: "n = 0 \<or> H + 13 + 2 * n \<le> buf_len"
    unfolding n H_def by (auto simp: min_def split: if_splits)
  then show fit: "length out \<le> buf_len"
    using lo cap by (auto simp: H_def)
  have h0: "literal_bytes (WEXT_CSCAN_HEADER k) H = Some hdr"
    using lit by (simp add: literal_bytes_def hdr_def H_def)
  have m0: "os_memcpy buf 0 hdr = Some (fst (writer_of buf hdr))"
    using cap hl by (intro memcpy_0_W) (simp add: H_def)
  have w0: "(fst (writer_of buf hdr), H) = writer_of buf hdr"
    using W_pair [of buf hdr] hl by simp
  have rep: "channel \<noteq> 0 \<Longrightarrow>
     cscan_repeat k buf_len channel ((uint dwell - 1) sdiv WEXT_CSCAN_PASV_DWELL_TIME_DEF k)
       (writer_of buf (hdr @ [C, channel])) = Some (writer_of buf ((hdr @ [C, channel]) @ cs))"
    using cap hl
    by (subst cscan_repeat_W) (simp_all add: n add.commute H_def cs_def C_def)
  have lens: "H + 2 + 2 * n + 8 \<le> length buf"
    using fit lo cap by (simp add: H_def)
  have n0: "channel = 0 \<Longrightarrow> cs = []"
    by (simp add: n cs_def)
  have p1: "put C (writer_of buf hdr) = Some (writer_of buf (hdr @ [C]))"
    using lens hl by (simp add: put_W)
  have p2: "put channel (writer_of buf (hdr @ [C])) = Some (writer_of buf (hdr @ [C, channel]))"
    using lens hl put_W [of channel buf "hdr @ [C]"] by simp
  have loop: "(if channel \<noteq> 0 then
             if WEXT_CSCAN_PASV_DWELL_TIME_DEF k = 0 then None
             else do {
               w \<leftarrow> cscan_repeat k buf_len channel
                      ((uint dwell - 1) sdiv WEXT_CSCAN_PASV_DWELL_TIME_DEF k)
                      (writer_of buf (hdr @ [C, channel]));
               Some (w, dwell)
             }
           else if uint dwell > WEXT_CSCAN_PASV_DWELL_TIME_MAX k
             then Some (writer_of buf (hdr @ [C, channel]),
                        word_of_int (WEXT_CSCAN_PASV_DWELL_TIME_MAX k) :: 16 word)
             else Some (writer_of buf (hdr @ [C, channel]), dwell))
          = Some (writer_of buf (hdr @ [C, channel] @ cs), if channel \<noteq> 0 then dwell else v)"
    using def rep n0 by (auto simp: v)
  have puts: "\<And>ws b. length ws < H + 2 + 2 * n + 8 \<Longrightarrow>
                 put b (writer_of buf ws) = Some (writer_of buf (ws @ [b]))"
    using lens by (simp add: put_W)
  define ws0 where "ws0 = hdr @ [C, channel] @ cs"
  have l0: "length ws0 = H + 2 + 2 * n"
    by (simp add: ws0_def hl cl)
  have tailw: "\<And>t1 t2 t3 t4 t5 t6 t7 t8. do {
        w \<leftarrow> put t1 (writer_of buf ws0);
        w \<leftarrow> do { w \<leftarrow> put t2 w; put t3 w };
        w \<leftarrow> put t4 w;
        w \<leftarrow> put t5 w;
        w \<leftarrow> put t6 w;
        w \<leftarrow> put t7 w;
        w \<leftarrow> put t8 w;
        Some (int (snd w), fst w, cmd')
      } = Some (int (length (ws0 @ [t1, t2, t3, t4, t5, t6, t7, t8])),
                fst (writer_of buf (ws0 @ [t1, t2, t3, t4, t5, t6, t7, t8])), cmd')"
    using l0 by (simp add: puts snd_W)
  have dsec: "\<And>w. (if channel \<noteq> 0 then do {
               w \<leftarrow> put (word_of_int (WEXT_CSCAN_PASV_DWELL_TIME_DEF k)) w;
               put (word_of_int (drop_bit 8 (WEXT_CSCAN_PASV_DWELL_TIME_DEF k))) w
             } else do {
               w \<leftarrow> put (ucast (if channel \<noteq> 0 then dwell else v)) w;
               put (ucast (drop_bit 8 (if channel \<noteq> 0 then dwell else v))) w
             }) = do { w \<leftarrow> put d0 w; put d1 w }"
    by (simp add: d0 d1)
  have body: "wpa_driver_wext_set_cscan_params k buf buf_len cmd
               = Some (int (length (ws0 @ tail)), fst (writer_of buf (ws0 @ tail)), cmd')"
    unfolding wpa_driver_wext_set_cscan_params_def
    using len
    apply (simp only: parse prod.case H_def [symmetric] C_def [symmetric] h0 m0 w0 p1 p2
              Option.bind.bind_lunit loop not_less [symmetric] if_False)
    apply (simp only: ws0_def [symmetric] prod.case dsec tailw)
    apply (simp add: tail_def)
    done
  then show "wpa_driver_wext_set_cscan_params k buf buf_len cmd
           = Some (int (length out), out @ drop (length out) buf, cmd')"
    by (simp add: out' ws0_def fst_W)
qed

section \<open>Properties of the CSCAN encoder\<close>

text \<open>
  Claim C3. When the buffer has room for the header, one channel section and the three
  closing sections (\<^verbatim>\<open>WEXT_CSCAN_HEADER_SIZE + 10\<close> bytes), the encoder is well defined for
  every command: it returns a count \<open>bp\<close> within the capacity, the first \<open>bp\<close> bytes of
  the buffer are the header, one or more channel sections, and then exactly one
  passive-dwell, one home-dwell and one scan-type section, and no byte from \<open>bp\<close> on is
  touched.
\<close>

theorem cscan_params_within_capacity:
  assumes "5 \<le> length cmd"
    and "WEXT_CSCAN_HEADER_SIZE k \<le> length (WEXT_CSCAN_HEADER k) + 1"
    and "WEXT_CSCAN_PASV_DWELL_TIME_DEF k \<noteq> 0"
    and "WEXT_CSCAN_HEADER_SIZE k + 10 \<le> buf_len"
    and "buf_len \<le> length buf"
  shows "\<exists>bp buf' cmd' n channel d0 d1.
           wpa_driver_wext_set_cscan_params k buf buf_len cmd = Some (int bp, buf', cmd')
           \<and> bp \<le> buf_len
           \<and> length buf' = length buf
           \<and> drop bp buf' = drop bp buf
           \<and> take bp buf' = cscan_sections k (Suc n) channel d0 d1"
proof -
  obtain cmd' dwell channel where parse: "cscan_parse k cmd = (cmd', dwell, channel)"
    by (cases "cscan_parse k cmd") auto
  define n where "n = (if channel = 0 then 0
                 else min (nat ((uint dwell - 1) sdiv WEXT_CSCAN_PASV_DWELL_TIME_DEF k))
                          ((buf_len - (WEXT_CSCAN_HEADER_SIZE k + 13)) div 2))"
  define v where "v = (if uint dwell > WEXT_CSCAN_PASV_DWELL_TIME_MAX k
                 then word_of_int (WEXT_CSCAN_PASV_DWELL_TIME_MAX k) else dwell)"
  define d0 :: byte where
    "d0 = (if channel \<noteq> 0 then word_of_int (WEXT_CSCAN_PASV_DWELL_TIME_DEF k) else ucast v)"
  define d1 :: byte where
    "d1 = (if channel \<noteq> 0 then word_of_int (drop_bit 8 (WEXT_CSCAN_PASV_DWELL_TIME_DEF k))
                   else ucast (drop_bit 8 v))"
  define out where "out = cscan_sections k (Suc n) channel d0 d1"
  note L = cscan_params_layout [OF assms(1,2,4,5) parse assms(3) n_def v_def d0_def d1_def out_def]
  have "length out \<le> length buf"
    using L(3) assms(5) by simp
  then show ?thesis
    using L(1) L(3) by (intro exI [of _ "length out"] exI [of _ "out @ drop (length out) buf"] exI [of _ cmd']
        exI [of _ n] exI [of _ channel] exI [of _ d0] exI [of _ d1]) (simp add: out_def)
qed

theorem cscan_params_within_capacity_witness:
  "5 \<le> length ''CSCAN 6,TIME=600''
   \<and> WEXT_CSCAN_HEADER_SIZE example_consts + 10 \<le> 32 \<and> 32 \<le> length buf32
   \<and> (\<exists>bp buf' cmd' n channel d0 d1.
      wpa_driver_wext_set_cscan_params example_consts buf32 32 ''CSCAN 6,TIME=600''
        = Some (int bp, buf', cmd')
      \<and> bp \<le> 32 \<and> length buf' = length buf32 \<and> drop bp buf' = drop bp buf32
      \<and> take bp buf' = cscan_sections example_consts (Suc n) channel d0 d1)"
  using cscan_params_within_capacity
          [where cmd = "''CSCAN 6,TIME=600''" and k = example_consts and buf_len = 32
             and buf = buf32]
  by (simp add: example_consts_def buf32_def)

text \<open>
  Claim C9. When the parsed channel is 0, the buffer holds the header, exactly one channel
  section with the channel byte 0, and the passive-dwell section carries the parsed dwell
  time, replaced by \<^verbatim>\<open>WEXT_CSCAN_PASV_DWELL_TIME_MAX\<close> when it is larger, low byte first; for
  a maximum that fits 16 bits this value is the smaller of the two.
\<close>

theorem cscan_channel_zero_clamps_dwell:
  assumes "5 \<le> length cmd"
    and "WEXT_CSCAN_HEADER_SIZE k \<le> length (WEXT_CSCAN_HEADER k) + 1"
    and "WEXT_CSCAN_HEADER_SIZE k + 10 \<le> buf_len"
    and "buf_len \<le> length buf"
    and "cscan_parse k cmd = (cmd', dwell, 0)"
    and "v = (if uint dwell > WEXT_CSCAN_PASV_DWELL_TIME_MAX k
              then word_of_int (WEXT_CSCAN_PASV_DWELL_TIME_MAX k) else dwell)"
  shows "wpa_driver_wext_set_cscan_params k buf buf_len cmd =
           Some (int (WEXT_CSCAN_HEADER_SIZE k + 10),
                 (take (WEXT_CSCAN_HEADER_SIZE k) (WEXT_CSCAN_HEADER k @ [0])
                  @ [WEXT_CSCAN_CHANNEL_SECTION k, 0]
                  @ [WEXT_CSCAN_PASV_DWELL_SECTION k, ucast v, ucast (drop_bit 8 v)]
                  @ [WEXT_CSCAN_HOME_DWELL_SECTION k, word_of_int (WEXT_CSCAN_HOME_DWELL_TIME k),
                     word_of_int (drop_bit 8 (WEXT_CSCAN_HOME_DWELL_TIME k))]
                  @ [WEXT_CSCAN_TYPE_SECTION k, WEXT_CSCAN_TYPE_PASSIVE k])
                 @ drop (WEXT_CSCAN_HEADER_SIZE k + 10) buf,
                 cmd')
         \<and> (0 \<le> WEXT_CSCAN_PASV_DWELL_TIME_MAX k \<and> WEXT_CSCAN_PASV_DWELL_TIME_MAX k < 65536
              \<longrightarrow> uint v = min (uint dwell) (WEXT_CSCAN_PASV_DWELL_TIME_MAX k))"
proof -
  define out where "out = cscan_sections k (Suc 0) 0 (ucast v) (ucast (drop_bit 8 v))"
  have L: "wpa_driver_wext_set_cscan_params k buf buf_len cmd
             = Some (int (length out), out @ drop (length out) buf, cmd')"
    and len: "length out = WEXT_CSCAN_HEADER_SIZE k + 2 * Suc 0 + 8"
    using cscan_params_layout [OF assms(1-5) _ _ assms(6) _ _ out_def] by simp_all
  have clamp: "uint v = min (uint dwell) (WEXT_CSCAN_PASV_DWELL_TIME_MAX k)"
    if "0 \<le> WEXT_CSCAN_PASV_DWELL_TIME_MAX k" "WEXT_CSCAN_PASV_DWELL_TIME_MAX k < 65536"
    using that by (simp add: assms(6) uint_word_of_int take_bit_int_eq_self)
  show ?thesis
    using L [unfolded len] clamp by (simp add: out_def cscan_sections_def add.commute)
qed

theorem cscan_channel_zero_clamps_dwell_witness:
  "uint (3000 :: 16 word) = min (uint (5000 :: 16 word)) (WEXT_CSCAN_PASV_DWELL_TIME_MAX example_consts)
   \<and> 5 \<le> length ''CSCAN 0,TIME=5000''
   \<and> cscan_parse example_consts ''CSCAN 0,TIME=5000'' = (''CSCAN 0'', 5000, 0)
   \<and> wpa_driver_wext_set_cscan_params example_consts buf24 24 ''CSCAN 0,TIME=5000''
       = Some (22, [0x43, 0x53, 0x43, 0x41, 0x4E, 0x20, 0x53, 0x01, 0x00, 0x00, 0x53, 0x00,
                    0x43, 0x00, 0x50, 0xB8, 0x0B, 0x48, 0x82, 0x00, 0x54, 0x01, 0x00, 0x00],
               ''CSCAN 0'')"
proof -
  have p: "cscan_parse example_consts ''CSCAN 0,TIME=5000'' = (''CSCAN 0'', 5000, 0)"
    by (simp add: cscan_parse_def atoi_def isspace_c_def isdigit_c_def example_consts_def)
  show ?thesis
    using cscan_channel_zero_clamps_dwell [OF _ _ _ _ p refl, where buf = buf24 and buf_len = 24] p
    by (simp add: example_consts_def buf24_def)
qed

text \<open>
  Claim C10. When the parsed channel is not 0, the passive-dwell section carries
  \<^verbatim>\<open>WEXT_CSCAN_PASV_DWELL_TIME_DEF\<close> whatever the dwell time of the command is; the dwell
  time only sets the number of channel sections, which is one plus
  \<^verbatim>\<open>(pasv_dwell - 1) / WEXT_CSCAN_PASV_DWELL_TIME_DEF\<close>, cut down to what the capacity check
  \<^verbatim>\<open>bp + 12 < buf_len\<close> lets through.
\<close>

theorem cscan_nonzero_channel_default_dwell:
  assumes "5 \<le> length cmd"
    and "WEXT_CSCAN_HEADER_SIZE k \<le> length (WEXT_CSCAN_HEADER k) + 1"
    and "WEXT_CSCAN_HEADER_SIZE k + 10 \<le> buf_len"
    and "buf_len \<le> length buf"
    and "cscan_parse k cmd = (cmd', dwell, channel)"
    and "channel \<noteq> 0"
    and "WEXT_CSCAN_PASV_DWELL_TIME_DEF k \<noteq> 0"
    and "n = min (nat ((uint dwell - 1) sdiv WEXT_CSCAN_PASV_DWELL_TIME_DEF k))
                 ((buf_len - (WEXT_CSCAN_HEADER_SIZE k + 13)) div 2)"
  shows "wpa_driver_wext_set_cscan_params k buf buf_len cmd =
           Some (int (WEXT_CSCAN_HEADER_SIZE k + 2 * (1 + n) + 8),
                 (take (WEXT_CSCAN_HEADER_SIZE k) (WEXT_CSCAN_HEADER k @ [0])
                  @ concat (replicate (1 + n) [WEXT_CSCAN_CHANNEL_SECTION k, channel])
                  @ [WEXT_CSCAN_PASV_DWELL_SECTION k,
                     word_of_int (WEXT_CSCAN_PASV_DWELL_TIME_DEF k),
                     word_of_int (drop_bit 8 (WEXT_CSCAN_PASV_DWELL_TIME_DEF k))]
                  @ [WEXT_CSCAN_HOME_DWELL_SECTION k, word_of_int (WEXT_CSCAN_HOME_DWELL_TIME k),
                     word_of_int (drop_bit 8 (WEXT_CSCAN_HOME_DWELL_TIME k))]
                  @ [WEXT_CSCAN_TYPE_SECTION k, WEXT_CSCAN_TYPE_PASSIVE k])
                 @ drop (WEXT_CSCAN_HEADER_SIZE k + 2 * (1 + n) + 8) buf,
                 cmd')"
proof -
  define out where "out = cscan_sections k (Suc n) channel
      (word_of_int (WEXT_CSCAN_PASV_DWELL_TIME_DEF k))
      (word_of_int (drop_bit 8 (WEXT_CSCAN_PASV_DWELL_TIME_DEF k)))"
  have L: "wpa_driver_wext_set_cscan_params k buf buf_len cmd
             = Some (int (length out), out @ drop (length out) buf, cmd')"
    and len: "length out = WEXT_CSCAN_HEADER_SIZE k + 2 * Suc n + 8"
    using cscan_params_layout [OF assms(1-5) assms(7) _ refl _ _ out_def] assms(6,8) by simp_all
  show ?thesis
    using L [unfolded len] by (simp add: out_def cscan_sections_def add.commute)
qed

theorem cscan_nonzero_channel_default_dwell_witness:
  "5 \<le> length ''CSCAN 6,TIME=600''
   \<and> cscan_parse example_consts ''CSCAN 6,TIME=600'' = (''CSCAN 6'', 600, 6)
   \<and> wpa_driver_wext_set_cscan_params example_consts buf32 32 ''CSCAN 6,TIME=600''
       = Some (26, [0x43, 0x53, 0x43, 0x41, 0x4E, 0x20, 0x53, 0x01, 0x00, 0x00, 0x53, 0x00,
                    0x43, 0x06, 0x43, 0x06, 0x43, 0x06, 0x50, 0xFA, 0x00, 0x48, 0x82, 0x00,
                    0x54, 0x01, 0x00, 0x00, 0x00, 0x00, 0x00, 0x00],
               ''CSCAN 6'')"
proof -
  have p: "cscan_parse example_consts ''CSCAN 6,TIME=600'' = (''CSCAN 6'', 600, 6)"
    by (simp add: cscan_parse_def atoi_def isspace_c_def isdigit_c_def example_consts_def)
  show ?thesis
    using cscan_nonzero_channel_default_dwell [OF _ _ _ _ p _ _ refl, where buf = buf32 and buf_len = 32] p
    by (simp add: example_consts_def buf32_def)
qed

section \<open>Properties of the PNO setup encoder\<close>

lemma eligible_iff: "eligible s \<longleftrightarrow> disabled s = 0 \<and> ssid_len s \<le> IW_ESSID_MAX_SIZE"
  by (simp add: eligible_def IW_ESSID_MAX_SIZE_def)

lemma length_ssid_section: "length (ssid_section k s) = 2 + ssid_len s"
  by (simp add: ssid_section_def ssid_len_def)

lemma ssid_sections_Cons: "ssid_sections k (s # ss) = ssid_section k s @ ssid_sections k ss"
  by (simp add: ssid_sections_def)

lemma ssid_sections_Nil: "ssid_sections k [] = []"
  by (simp add: ssid_sections_def)

lemma pno_taken_full: "WEXT_PNO_AMOUNT k \<le> i \<Longrightarrow> pno_taken k i bp ss = []"
  by (cases ss) simp_all

lemma pno_ssid_loop_W:
  assumes "WEXT_PNO_MAX_COMMAND_SIZE k \<le> length buf"
  shows "pno_ssid_loop k i ss (writer_of buf ws) =
           Some (i + length (pno_taken k i (length ws) ss),
                 writer_of buf (ws @ ssid_sections k (pno_taken k i (length ws) ss)))"
proof (induction ss arbitrary: i ws)
  case Nil
  show ?case by (simp add: ssid_sections_Nil)
next
  case (Cons s ss)
  let ?room = "length ws + WEXT_PNO_SSID_HEADER_SIZE k + 32 + WEXT_PNO_NONSSID_SECTIONS_SIZE k + 1
                 < WEXT_PNO_MAX_COMMAND_SIZE k"
  show ?case
  proof (cases "i < WEXT_PNO_AMOUNT k \<and> ?room")
    case False
    then show ?thesis
      by (auto simp: snd_W IW_ESSID_MAX_SIZE_def ssid_sections_Nil)
  next
    case True
    show ?thesis
    proof (cases "eligible s")
      case False
      have cond: "i < WEXT_PNO_AMOUNT k"
        "\<not> WEXT_PNO_MAX_COMMAND_SIZE k \<le> snd (writer_of buf ws) + WEXT_PNO_SSID_HEADER_SIZE k
              + IW_ESSID_MAX_SIZE + WEXT_PNO_NONSSID_SECTIONS_SIZE k + 1"
        "\<not> (disabled s = 0 \<and> ssid_len s \<le> IW_ESSID_MAX_SIZE)"
        using True False by (simp_all add: snd_W IW_ESSID_MAX_SIZE_def eligible_def)
      have step: "pno_ssid_loop k i (s # ss) (writer_of buf ws)
                   = pno_ssid_loop k i ss (writer_of buf ws)"
        by (simp only: pno_ssid_loop.simps cond if_True if_False)
      have tk: "pno_taken k i (length ws) (s # ss) = pno_taken k i (length ws) ss"
        using True False by simp
      show ?thesis
        unfolding step tk by (rule Cons.IH)
    next
      case el: True
      let ?tag = "WEXT_PNO_SSID_SECTION k"
      let ?len = "of_nat (ssid_len s) :: byte"
      let ?ws' = "ws @ ssid_section k s"
      have fit: "length ws + 2 + ssid_len s \<le> length buf"
        using True el assms by (simp add: eligible_def)
      have p1: "put ?tag (writer_of buf ws) = Some (writer_of buf (ws @ [?tag]))"
        using fit by (simp add: put_W)
      have p2: "put ?len (writer_of buf (ws @ [?tag])) = Some (writer_of buf (ws @ [?tag, ?len]))"
        using fit put_W [of ?len buf "ws @ [?tag]"] by simp
      have m: "os_memcpy (fst (writer_of buf (ws @ [?tag, ?len])))
                 (snd (writer_of buf (ws @ [?tag, ?len]))) (ssid s)
                = Some (fst (writer_of buf ((ws @ [?tag, ?len]) @ ssid s)))"
        using fit by (intro memcpy_W) (simp add: ssid_len_def)
      have ws': "(ws @ [?tag, ?len]) @ ssid s = ?ws'"
        by (simp add: ssid_section_def)
      have w': "(fst (writer_of buf ?ws'), snd (writer_of buf (ws @ [?tag, ?len])) + ssid_len s)
                  = writer_of buf ?ws'"
        using W_pair [of buf ?ws'] by (simp add: snd_W length_ssid_section)
      have cond: "i < WEXT_PNO_AMOUNT k"
        "\<not> WEXT_PNO_MAX_COMMAND_SIZE k \<le> snd (writer_of buf ws) + WEXT_PNO_SSID_HEADER_SIZE k
              + IW_ESSID_MAX_SIZE + WEXT_PNO_NONSSID_SECTIONS_SIZE k + 1"
        "disabled s = 0 \<and> ssid_len s \<le> IW_ESSID_MAX_SIZE"
        using True el by (simp_all add: snd_W IW_ESSID_MAX_SIZE_def eligible_def)
      have step: "pno_ssid_loop k i (s # ss) (writer_of buf ws)
                   = pno_ssid_loop k (i + 1) ss (writer_of buf ?ws')"
        by (simp only: pno_ssid_loop.simps cond if_True if_False p1 p2 m ws' w'
              Option.bind.bind_lunit simp_thms)
      have tk: "pno_taken k i (length ws) (s # ss)
                  = s # pno_taken k (i + 1) (length ?ws') ss"
        using True el by (simp add: length_ssid_section add.assoc)
      show ?thesis
        unfolding step tk Cons.IH [of "i + 1" ?ws']
        by (simp add: ssid_sections_Cons)
    qed
  qed
qed

lemma pno_taken_prefix:
  "\<exists>n. n \<le> WEXT_PNO_AMOUNT k - i \<and> pno_taken k i bp ss = take n (filter eligible ss)"
proof (induction ss arbitrary: i bp)
  case Nil
  show ?case by (intro exI [of _ 0]) simp
next
  case (Cons s ss)
  show ?case
  proof (cases "i < WEXT_PNO_AMOUNT k
         \<and> bp + WEXT_PNO_SSID_HEADER_SIZE k + 32 + WEXT_PNO_NONSSID_SECTIONS_SIZE k + 1
             < WEXT_PNO_MAX_COMMAND_SIZE k")
    case False
    then have "pno_taken k i bp (s # ss) = take 0 (filter eligible (s # ss))"
      by auto
    then show ?thesis by (intro exI [of _ 0]) simp
  next
    case True
    show ?thesis
    proof (cases "eligible s")
      case False
      from Cons.IH [of i bp] obtain n where
        n: "n \<le> WEXT_PNO_AMOUNT k - i" "pno_taken k i bp ss = take n (filter eligible ss)"
        by blast
      have "pno_taken k i bp (s # ss) = take n (filter eligible (s # ss))"
        using True False n(2) by simp
      with n(1) show ?thesis by blast
    next
      case el: True
      from Cons.IH [of "i + 1" "bp + 2 + ssid_len s"] obtain n where
        n: "n \<le> WEXT_PNO_AMOUNT k - (i + 1)"
           "pno_taken k (i + 1) (bp + 2 + ssid_len s) ss = take n (filter eligible ss)"
        by blast
      have "Suc n \<le> WEXT_PNO_AMOUNT k - i"
        using n(1) True by linarith
      moreover have "pno_taken k i bp (s # ss) = take (Suc n) (filter eligible (s # ss))"
        using True el n(2) by simp
      ultimately show ?thesis by blast
    qed
  qed
qed

lemma pno_taken_bound:
  assumes "1 \<le> WEXT_PNO_SSID_HEADER_SIZE k"
    and "bp + WEXT_PNO_NONSSID_SECTIONS_SIZE k + 1 \<le> WEXT_PNO_MAX_COMMAND_SIZE k"
  shows "bp + length (ssid_sections k (pno_taken k i bp ss))
           + WEXT_PNO_NONSSID_SECTIONS_SIZE k + 1 \<le> WEXT_PNO_MAX_COMMAND_SIZE k"
  using assms(2)
proof (induction ss arbitrary: i bp)
  case Nil
  then show ?case by (simp add: ssid_sections_Nil)
next
  case (Cons s ss)
  show ?case
  proof (cases "i < WEXT_PNO_AMOUNT k
         \<and> bp + WEXT_PNO_SSID_HEADER_SIZE k + 32 + WEXT_PNO_NONSSID_SECTIONS_SIZE k + 1
             < WEXT_PNO_MAX_COMMAND_SIZE k")
    case False
    with Cons.prems show ?thesis by (auto simp: ssid_sections_Nil)
  next
    case True
    show ?thesis
    proof (cases "eligible s")
      case False
      with True Cons.IH [OF Cons.prems, of i] show ?thesis by simp
    next
      case el: True
      have "bp + 2 + ssid_len s + WEXT_PNO_NONSSID_SECTIONS_SIZE k + 1
              \<le> WEXT_PNO_MAX_COMMAND_SIZE k"
        using True el assms(1) by (simp add: eligible_def)
      from Cons.IH [OF this, of "i + 1"] True el show ?thesis
        by (simp add: ssid_sections_Cons length_ssid_section)
    qed
  qed
qed

lemma pno_taken_all:
  assumes "bp + length (ssid_sections k (take (WEXT_PNO_AMOUNT k - i - 1) (filter eligible ss)))
             + WEXT_PNO_SSID_HEADER_SIZE k + 32 + WEXT_PNO_NONSSID_SECTIONS_SIZE k + 1
           < WEXT_PNO_MAX_COMMAND_SIZE k"
  shows "pno_taken k i bp ss = take (WEXT_PNO_AMOUNT k - i) (filter eligible ss)"
  using assms
proof (induction ss arbitrary: i bp)
  case Nil
  show ?case by simp
next
  case (Cons s ss)
  show ?case
  proof (cases "i < WEXT_PNO_AMOUNT k")
    case False
    then show ?thesis by simp
  next
    case lt: True
    have room: "bp + WEXT_PNO_SSID_HEADER_SIZE k + 32 + WEXT_PNO_NONSSID_SECTIONS_SIZE k + 1
                  < WEXT_PNO_MAX_COMMAND_SIZE k"
      using Cons.prems by linarith
    show ?thesis
    proof (cases "eligible s")
      case False
      with lt room Cons.IH [of bp i] Cons.prems show ?thesis by simp
    next
      case el: True
      show ?thesis
      proof (cases "WEXT_PNO_AMOUNT k - i - 1")
        case 0
        then have "WEXT_PNO_AMOUNT k \<le> i + 1" by simp
        then have "pno_taken k (i + 1) (bp + 2 + ssid_len s) ss = []"
          by (rule pno_taken_full)
        moreover have "WEXT_PNO_AMOUNT k - i = 1" using 0 lt by simp
        ultimately show ?thesis using lt room el by simp
      next
        case (Suc m)
        then have m: "WEXT_PNO_AMOUNT k - (i + 1) - 1 = m" by simp
        have "bp + 2 + ssid_len s
                + length (ssid_sections k (take (WEXT_PNO_AMOUNT k - (i + 1) - 1) (filter eligible ss)))
                + WEXT_PNO_SSID_HEADER_SIZE k + 32 + WEXT_PNO_NONSSID_SECTIONS_SIZE k + 1
              < WEXT_PNO_MAX_COMMAND_SIZE k"
          using Cons.prems el Suc
          by (simp add: m ssid_sections_Cons length_ssid_section)
        from Cons.IH [OF this] have
          "pno_taken k (i + 1) (bp + 2 + ssid_len s) ss
             = take (WEXT_PNO_AMOUNT k - (i + 1)) (filter eligible ss)" .
        moreover have "WEXT_PNO_AMOUNT k - i = Suc (WEXT_PNO_AMOUNT k - (i + 1))"
          using lt by simp
        ultimately show ?thesis using lt room el by simp
      qed
    qed
  qed
qed

lemma pno_header_W:
  assumes "WEXT_PNOSETUP_HEADER_SIZE k \<le> length (WEXT_PNOSETUP_HEADER k) + 1"
    and "WEXT_PNOSETUP_HEADER_SIZE k + 4 \<le> WEXT_PNO_MAX_COMMAND_SIZE k"
  shows "pno_header k e
           = Some (writer_of (map (uninit e) [0..<WEXT_PNO_MAX_COMMAND_SIZE k]) (pno_preamble k))"
    and "length (pno_preamble k) = WEXT_PNOSETUP_HEADER_SIZE k + 4"
proof -
  define H where "H = WEXT_PNOSETUP_HEADER_SIZE k"
  define hdr where "hdr = take H (WEXT_PNOSETUP_HEADER k @ [0])"
  define buf where "buf = map (uninit e) [0..<WEXT_PNO_MAX_COMMAND_SIZE k]"
  have hl: "length hdr = H"
    using assms(1) by (simp add: hdr_def H_def)
  have bl: "H + 4 \<le> length buf"
    using assms(2) by (simp add: buf_def H_def)
  have h0: "literal_bytes (WEXT_PNOSETUP_HEADER k) H = Some hdr"
    using assms(1) by (simp add: literal_bytes_def hdr_def H_def)
  have m0: "os_memcpy buf 0 hdr = Some (fst (writer_of buf hdr))"
    using bl hl by (intro memcpy_0_W) simp
  have w0: "(fst (writer_of buf hdr), H) = writer_of buf hdr"
    using W_pair [of buf hdr] hl by simp
  have puts: "\<And>ws b. length ws < H + 4 \<Longrightarrow>
                 put b (writer_of buf ws) = Some (writer_of buf (ws @ [b]))"
    using bl by (simp add: put_W)
  have pre: "pno_preamble k = hdr @ [WEXT_PNO_TLV_PREFIX k, WEXT_PNO_TLV_VERSION k,
                WEXT_PNO_TLV_SUBVERSION k, WEXT_PNO_TLV_RESERVED k]"
    by (simp add: pno_preamble_def hdr_def H_def)
  show "length (pno_preamble k) = WEXT_PNOSETUP_HEADER_SIZE k + 4"
    by (simp add: pre hl H_def)
  have "pno_header k e = Some (writer_of buf (pno_preamble k))"
    unfolding pno_header_def
    apply (simp only: H_def [symmetric] buf_def [symmetric] h0 m0 w0 Option.bind.bind_lunit)
    apply (simp add: puts hl pre)
    done
  then show "pno_header k e
           = Some (writer_of (map (uninit e) [0..<WEXT_PNO_MAX_COMMAND_SIZE k]) (pno_preamble k))"
    by (simp add: buf_def)
qed

lemma put_raw:
  "p < length b \<Longrightarrow> put x (b, p) = Some (b[p := x], Suc p)"
  by (simp add: put_def)

lemma os_snprintf_x_Some:
  assumes "i + n \<le> length b"
  shows "\<exists>b'. os_snprintf_x b i n v = Some b' \<and> length b' = length b \<and> take i b' = take i b"
proof (cases "n = 0")
  case True
  then show ?thesis by (simp add: os_snprintf_x_def)
next
  case False
  define src where "src = bytes_of (take (n - 1) (hex v)) @ [0]"
  have "length src \<le> n"
    using False by (simp add: src_def bytes_of_def)
  then have fit: "i + length src \<le> length b"
    using assms by simp
  have "os_snprintf_x b i n v = os_memcpy b i src"
    using False by (simp add: os_snprintf_x_def src_def)
  also have "\<dots> = Some (take i b @ src @ drop (i + length src) b)"
    using fit by (simp add: os_memcpy_def)
  finally show ?thesis
    using fit by simp
qed

lemma take_eq_le: "take i x = take i y \<Longrightarrow> j \<le> i \<Longrightarrow> take j x = take j y"
  by (metis min.absorb1 take_take)

lemma pno_trailer_raw:
  assumes "p + WEXT_PNO_SCAN_INTERVAL_LENGTH k + WEXT_PNO_REPEAT_LENGTH k
             + WEXT_PNO_MAX_REPEAT_LENGTH k + 4 \<le> length b"
  shows "\<exists>b'. pno_trailer k (b, p)
                = Some (b', p + WEXT_PNO_SCAN_INTERVAL_LENGTH k + WEXT_PNO_REPEAT_LENGTH k
                              + WEXT_PNO_MAX_REPEAT_LENGTH k + 4)
             \<and> length b' = length b
             \<and> take (Suc p) b' = take p b @ [WEXT_PNO_SCAN_INTERVAL_SECTION k]"
proof -
  define ilen where "ilen = WEXT_PNO_SCAN_INTERVAL_LENGTH k"
  define rlen where "rlen = WEXT_PNO_REPEAT_LENGTH k"
  define mlen where "mlen = WEXT_PNO_MAX_REPEAT_LENGTH k"
  have len: "p + ilen + rlen + mlen + 4 \<le> length b"
    using assms by (simp add: ilen_def rlen_def mlen_def)
  define b1 where "b1 = b[p := WEXT_PNO_SCAN_INTERVAL_SECTION k]"
  have l1: "length b1 = length b" by (simp add: b1_def)
  have t1: "take (Suc p) b1 = take p b @ [WEXT_PNO_SCAN_INTERVAL_SECTION k]"
    using len by (simp add: b1_def take_Suc_conv_app_nth)
  have e1: "put (WEXT_PNO_SCAN_INTERVAL_SECTION k) (b, p) = Some (b1, Suc p)"
    using len by (simp add: put_raw b1_def)
  obtain b2 where e2: "os_snprintf_x b1 (Suc p) (ilen + 1) (WEXT_PNO_SCAN_INTERVAL k) = Some b2"
    and l2: "length b2 = length b1" and t2: "take (Suc p) b2 = take (Suc p) b1"
    using os_snprintf_x_Some [of "Suc p" "ilen + 1" b1] len l1 by auto
  define b3 where "b3 = b2[Suc p + ilen := WEXT_PNO_REPEAT_SECTION k]"
  have l3: "length b3 = length b2" by (simp add: b3_def)
  have t3: "take (Suc p) b3 = take (Suc p) b2" by (simp add: b3_def)
  have e3: "put (WEXT_PNO_REPEAT_SECTION k) (b2, Suc p + ilen) = Some (b3, Suc (Suc p + ilen))"
    using len l1 l2 by (simp add: put_raw b3_def)
  obtain b4 where e4: "os_snprintf_x b3 (Suc (Suc p + ilen)) (rlen + 1) (WEXT_PNO_REPEAT k) = Some b4"
    and l4: "length b4 = length b3" and t4': "take (Suc (Suc p + ilen)) b4 = take (Suc (Suc p + ilen)) b3"
    using os_snprintf_x_Some [of "Suc (Suc p + ilen)" "rlen + 1" b3] len l1 l2 l3 by auto
  have t4: "take (Suc p) b4 = take (Suc p) b3"
    using t4' by (rule take_eq_le) simp
  define b5 where "b5 = b4[Suc (Suc p + ilen) + rlen := WEXT_PNO_MAX_REPEAT_SECTION k]"
  have l5: "length b5 = length b4" by (simp add: b5_def)
  have t5: "take (Suc p) b5 = take (Suc p) b4" by (simp add: b5_def)
  have e5: "put (WEXT_PNO_MAX_REPEAT_SECTION k) (b4, Suc (Suc p + ilen) + rlen)
              = Some (b5, Suc (Suc (Suc p + ilen) + rlen))"
    using len l1 l2 l3 l4 by (simp add: put_raw b5_def)
  obtain b6 where e6: "os_snprintf_x b5 (Suc (Suc (Suc p + ilen) + rlen)) (mlen + 1)
                         (WEXT_PNO_MAX_REPEAT k) = Some b6"
    and l6: "length b6 = length b5"
    and t6': "take (Suc (Suc (Suc p + ilen) + rlen)) b6 = take (Suc (Suc (Suc p + ilen) + rlen)) b5"
    using os_snprintf_x_Some [of "Suc (Suc (Suc p + ilen) + rlen)" "mlen + 1" b5] len l1 l2 l3 l4 l5
    by auto
  have t6: "take (Suc p) b6 = take (Suc p) b5"
    using t6' by (rule take_eq_le) simp
  have "pno_trailer k (b, p) = Some (b6, Suc (Suc (Suc p + ilen) + rlen) + mlen + 1)"
    unfolding pno_trailer_def
    by (simp only: ilen_def [symmetric] rlen_def [symmetric] mlen_def [symmetric] e1 e2 e3 e4 e5 e6
          Option.bind.bind_lunit fst_conv snd_conv)
  moreover have "Suc (Suc (Suc p + ilen) + rlen) + mlen + 1 = p + ilen + rlen + mlen + 4"
    by simp
  ultimately show ?thesis
    using l1 l2 l3 l4 l5 l6 t1 t2 t3 t4 t5 t6
    by (simp add: ilen_def rlen_def mlen_def)
qed

lemma pno_setup_buffer_result:
  assumes lit: "WEXT_PNOSETUP_HEADER_SIZE k \<le> length (WEXT_PNOSETUP_HEADER k) + 1"
    and base: "WEXT_PNOSETUP_HEADER_SIZE k + 4 + WEXT_PNO_NONSSID_SECTIONS_SIZE k + 1
                 \<le> WEXT_PNO_MAX_COMMAND_SIZE k"
    and tr: "WEXT_PNO_SCAN_INTERVAL_LENGTH k + WEXT_PNO_REPEAT_LENGTH k
                 + WEXT_PNO_MAX_REPEAT_LENGTH k + 3 \<le> WEXT_PNO_NONSSID_SECTIONS_SIZE k"
    and hd: "1 \<le> WEXT_PNO_SSID_HEADER_SIZE k"
    and taken: "taken = pno_taken k 0 (WEXT_PNOSETUP_HEADER_SIZE k + 4) ssid_conf"
    and bp: "bp = WEXT_PNOSETUP_HEADER_SIZE k + 4 + length (ssid_sections k taken)
                  + WEXT_PNO_SCAN_INTERVAL_LENGTH k + WEXT_PNO_REPEAT_LENGTH k
                  + WEXT_PNO_MAX_REPEAT_LENGTH k + 4"
  shows "\<exists>buf. pno_setup_buffer k e ssid_conf = Some (buf, bp)
           \<and> length buf = WEXT_PNO_MAX_COMMAND_SIZE k
           \<and> take (WEXT_PNOSETUP_HEADER_SIZE k + 4 + length (ssid_sections k taken) + 1) buf
               = pno_preamble k @ ssid_sections k taken @ [WEXT_PNO_SCAN_INTERVAL_SECTION k]"
    and "bp \<le> WEXT_PNO_MAX_COMMAND_SIZE k"
proof -
  define buf0 where "buf0 = map (uninit e) [0..<WEXT_PNO_MAX_COMMAND_SIZE k]"
  define ws where "ws = pno_preamble k @ ssid_sections k taken"
  have fit0: "WEXT_PNOSETUP_HEADER_SIZE k + 4 \<le> WEXT_PNO_MAX_COMMAND_SIZE k"
    using base by simp
  note hdr = pno_header_W(1) [OF lit fit0, of e, folded buf0_def] pno_header_W(2) [OF lit fit0]
  have l0: "length buf0 = WEXT_PNO_MAX_COMMAND_SIZE k"
    by (simp add: buf0_def)
  have loop: "pno_ssid_loop k 0 ssid_conf (writer_of buf0 (pno_preamble k))
                = Some (0 + length taken, writer_of buf0 ws)"
    using pno_ssid_loop_W [of k buf0 0 ssid_conf "pno_preamble k"] l0
    by (simp add: hdr(2) taken ws_def)
  have bound: "WEXT_PNOSETUP_HEADER_SIZE k + 4 + length (ssid_sections k taken)
                 + WEXT_PNO_NONSSID_SECTIONS_SIZE k + 1 \<le> WEXT_PNO_MAX_COMMAND_SIZE k"
    unfolding taken by (rule pno_taken_bound [OF hd base])
  show le: "bp \<le> WEXT_PNO_MAX_COMMAND_SIZE k"
    using bound tr by (simp add: bp)
  have lws: "length ws = WEXT_PNOSETUP_HEADER_SIZE k + 4 + length (ssid_sections k taken)"
    by (simp add: ws_def hdr(2))
  have wl: "length (fst (writer_of buf0 ws)) = length buf0"
    using le l0 lws by (simp add: fst_W bp)
  have raw: "writer_of buf0 ws = (fst (writer_of buf0 ws), length ws)"
    by (simp add: writer_of_def)
  have "length ws + WEXT_PNO_SCAN_INTERVAL_LENGTH k + WEXT_PNO_REPEAT_LENGTH k
          + WEXT_PNO_MAX_REPEAT_LENGTH k + 4 \<le> length (fst (writer_of buf0 ws))"
    using le by (simp add: wl l0 lws bp)
  from pno_trailer_raw [OF this] obtain b' where
    tr': "pno_trailer k (fst (writer_of buf0 ws), length ws) = Some (b', bp)"
    and lb: "length b' = length buf0"
    and tb: "take (Suc (length ws)) b'
              = take (length ws) (fst (writer_of buf0 ws)) @ [WEXT_PNO_SCAN_INTERVAL_SECTION k]"
    by (auto simp: wl lws bp)
  have "pno_setup_buffer k e ssid_conf = Some (b', bp)"
    unfolding pno_setup_buffer_def
    apply (simp only: hdr(1) loop Option.bind.bind_lunit prod.case)
    apply (subst raw)
    apply (rule tr')
    done
  moreover have "take (WEXT_PNOSETUP_HEADER_SIZE k + 4 + length (ssid_sections k taken) + 1) b'
               = pno_preamble k @ ssid_sections k taken @ [WEXT_PNO_SCAN_INTERVAL_SECTION k]"
    using tb by (simp add: lws [symmetric] fst_W) (simp add: ws_def)
  ultimately show "\<exists>buf. pno_setup_buffer k e ssid_conf = Some (buf, bp)
           \<and> length buf = WEXT_PNO_MAX_COMMAND_SIZE k
           \<and> take (WEXT_PNOSETUP_HEADER_SIZE k + 4 + length (ssid_sections k taken) + 1) buf
               = pno_preamble k @ ssid_sections k taken @ [WEXT_PNO_SCAN_INTERVAL_SECTION k]"
    using lb l0 by auto
qed

text \<open>
  Claim C4. When the local array has room for the header, the preamble and the trailing
  sections, and \<^verbatim>\<open>WEXT_PNO_NONSSID_SECTIONS_SIZE\<close> and \<^verbatim>\<open>WEXT_PNO_SSID_HEADER_SIZE\<close> account
  for the trailing sections and for the header of an SSID section, the encoder is well
  defined for every list of networks (no write leaves the array of
  \<^verbatim>\<open>WEXT_PNO_MAX_COMMAND_SIZE\<close> bytes), and the count it hands to the ioctl, which is the
  header, the preamble, the SSID sections taken and the three trailing sections with the
  closing NUL, is at most \<^verbatim>\<open>WEXT_PNO_MAX_COMMAND_SIZE\<close>.
\<close>

theorem pno_setup_within_capacity:
  assumes "WEXT_PNOSETUP_HEADER_SIZE k \<le> length (WEXT_PNOSETUP_HEADER k) + 1"
    and "WEXT_PNOSETUP_HEADER_SIZE k + 4 + WEXT_PNO_NONSSID_SECTIONS_SIZE k + 1
           \<le> WEXT_PNO_MAX_COMMAND_SIZE k"
    and "WEXT_PNO_SCAN_INTERVAL_LENGTH k + WEXT_PNO_REPEAT_LENGTH k
           + WEXT_PNO_MAX_REPEAT_LENGTH k + 3 \<le> WEXT_PNO_NONSSID_SECTIONS_SIZE k"
    and "1 \<le> WEXT_PNO_SSID_HEADER_SIZE k"
  shows "\<exists>buf bp. pno_setup_buffer k e ssid_conf = Some (buf, bp)
           \<and> length buf = WEXT_PNO_MAX_COMMAND_SIZE k
           \<and> bp \<le> WEXT_PNO_MAX_COMMAND_SIZE k
           \<and> bp = WEXT_PNOSETUP_HEADER_SIZE k + 4
                  + length (ssid_sections k
                      (pno_taken k 0 (WEXT_PNOSETUP_HEADER_SIZE k + 4) ssid_conf))
                  + (1 + WEXT_PNO_SCAN_INTERVAL_LENGTH k) + (1 + WEXT_PNO_REPEAT_LENGTH k)
                  + (1 + WEXT_PNO_MAX_REPEAT_LENGTH k + 1)"
  using pno_setup_buffer_result(1) [where e = e and ssid_conf = ssid_conf, OF assms refl refl]
    pno_setup_buffer_result(2) [where ssid_conf = ssid_conf, OF assms refl refl]
  by (auto simp: add.assoc)

lemma ssid_len_nets [simp]:
  "ssid_len net_home = 4" "ssid_len net_off = 3" "ssid_len net_long = 33"
  "ssid_len net_cafe = 4" "ssid_len net_max = 32"
  by (simp_all add: ssid_len_def net_home_def net_off_def net_long_def net_cafe_def net_max_def)

lemma eligible_nets [simp]:
  "eligible net_home" "\<not> eligible net_off" "\<not> eligible net_long"
  "eligible net_cafe" "eligible net_max"
  by (simp_all add: eligible_def) (simp_all add: net_home_def net_off_def net_cafe_def net_max_def)

lemma example_pno_consts [simp]:
  "WEXT_PNOSETUP_HEADER_SIZE example_consts = 9"
  "length (WEXT_PNOSETUP_HEADER example_consts) = 9"
  "WEXT_PNO_AMOUNT example_consts = 16"
  "WEXT_PNO_SSID_HEADER_SIZE example_consts = 2"
  "WEXT_PNO_NONSSID_SECTIONS_SIZE example_consts = 7"
  "WEXT_PNO_MAX_COMMAND_SIZE example_consts = 565"
  "WEXT_PNO_SCAN_INTERVAL_LENGTH example_consts = 2"
  "WEXT_PNO_REPEAT_LENGTH example_consts = 1"
  "WEXT_PNO_MAX_REPEAT_LENGTH example_consts = 1"
  by (simp_all add: example_consts_def)

text \<open>Claim C4, witness: five networks, three of them eligible.\<close>

theorem pno_setup_within_capacity_witness:
  "WEXT_PNOSETUP_HEADER_SIZE example_consts + 4 + WEXT_PNO_NONSSID_SECTIONS_SIZE example_consts + 1
     \<le> WEXT_PNO_MAX_COMMAND_SIZE example_consts
   \<and> (\<exists>buf. pno_setup_buffer example_consts example_kernel networks5 = Some (buf, 67)
          \<and> length buf = 565)"
  using pno_setup_within_capacity [of example_consts example_kernel networks5]
  by (simp add: networks5_def ssid_sections_def length_ssid_section)

text \<open>
  The SSID sections of the buffer handed to the ioctl are those of the first \<open>n\<close> eligible
  entries in the order of the list, with \<open>n\<close> at most \<^verbatim>\<open>WEXT_PNO_AMOUNT\<close>, and the
  scan-interval section follows them; entries that are disabled or longer than 32 bytes are
  skipped and use no slot. When the header, the preamble, the first
  \<^verbatim>\<open>WEXT_PNO_AMOUNT - 1\<close> eligible sections, one more section of maximal size, the trailing
  sections and one byte stay below \<^verbatim>\<open>WEXT_PNO_MAX_COMMAND_SIZE\<close>, \<open>n\<close> is
  \<^verbatim>\<open>WEXT_PNO_AMOUNT\<close>, or the number of eligible entries when the list has fewer.
\<close>

lemma pno_setup_buffer_sections:
  assumes "WEXT_PNOSETUP_HEADER_SIZE k \<le> length (WEXT_PNOSETUP_HEADER k) + 1"
    and "WEXT_PNOSETUP_HEADER_SIZE k + 4 + WEXT_PNO_NONSSID_SECTIONS_SIZE k + 1
           \<le> WEXT_PNO_MAX_COMMAND_SIZE k"
    and "WEXT_PNO_SCAN_INTERVAL_LENGTH k + WEXT_PNO_REPEAT_LENGTH k
           + WEXT_PNO_MAX_REPEAT_LENGTH k + 3 \<le> WEXT_PNO_NONSSID_SECTIONS_SIZE k"
    and "1 \<le> WEXT_PNO_SSID_HEADER_SIZE k"
  shows "\<exists>n buf bp.
      pno_setup_buffer k e ssid_conf = Some (buf, bp)
      \<and> n \<le> WEXT_PNO_AMOUNT k
      \<and> take (WEXT_PNOSETUP_HEADER_SIZE k + 4
                + length (ssid_sections k (take n (filter eligible ssid_conf))) + 1) buf
          = pno_preamble k @ ssid_sections k (take n (filter eligible ssid_conf))
              @ [WEXT_PNO_SCAN_INTERVAL_SECTION k]
      \<and> (WEXT_PNOSETUP_HEADER_SIZE k + 4
            + length (ssid_sections k (take (WEXT_PNO_AMOUNT k - 1) (filter eligible ssid_conf)))
            + WEXT_PNO_SSID_HEADER_SIZE k + 32 + WEXT_PNO_NONSSID_SECTIONS_SIZE k + 1
            < WEXT_PNO_MAX_COMMAND_SIZE k
          \<longrightarrow> n = min (WEXT_PNO_AMOUNT k) (length (filter eligible ssid_conf)))"
proof -
  define H4 where "H4 = WEXT_PNOSETUP_HEADER_SIZE k + 4"
  define taken where "taken = pno_taken k 0 H4 ssid_conf"
  define fe where "fe = filter eligible ssid_conf"
  obtain m where m: "m \<le> WEXT_PNO_AMOUNT k - 0" "taken = take m fe"
    using pno_taken_prefix [of k 0 H4 ssid_conf] by (auto simp: taken_def fe_def)
  define n where "n = length taken"
  have tk: "take n fe = taken"
    unfolding n_def m(2) by (cases "m \<le> length fe") (simp_all add: min_def)
  have n_le: "n \<le> WEXT_PNO_AMOUNT k"
    using m by (simp add: n_def)
  obtain buf bp where run: "pno_setup_buffer k e ssid_conf = Some (buf, bp)"
    and tb: "take (H4 + length (ssid_sections k taken) + 1) buf
               = pno_preamble k @ ssid_sections k taken @ [WEXT_PNO_SCAN_INTERVAL_SECTION k]"
    using pno_setup_buffer_result(1) [where e = e and ssid_conf = ssid_conf, OF assms refl refl]
    by (auto simp: taken_def H4_def)
  have all: "n = min (WEXT_PNO_AMOUNT k) (length fe)"
    if "H4 + length (ssid_sections k (take (WEXT_PNO_AMOUNT k - 1) fe))
            + WEXT_PNO_SSID_HEADER_SIZE k + 32 + WEXT_PNO_NONSSID_SECTIONS_SIZE k + 1
          < WEXT_PNO_MAX_COMMAND_SIZE k"
  proof -
    have "taken = take (WEXT_PNO_AMOUNT k - 0) fe"
      unfolding taken_def fe_def using that by (intro pno_taken_all) (simp add: fe_def)
    then show ?thesis
      by (simp add: n_def min.commute)
  qed
  show ?thesis
    apply (rule exI [of _ n])
    apply (rule exI [of _ buf])
    apply (rule exI [of _ bp])
    using run tb n_le all
    by (simp add: tk H4_def [symmetric] fe_def [symmetric])
qed

lemma roomy_pno_consts [simp]:
  "WEXT_PNOSETUP_HEADER_SIZE roomy_consts = 9"
  "length (WEXT_PNOSETUP_HEADER roomy_consts) = 9"
  "WEXT_PNO_AMOUNT roomy_consts = 16"
  "WEXT_PNO_SSID_HEADER_SIZE roomy_consts = 2"
  "WEXT_PNO_NONSSID_SECTIONS_SIZE roomy_consts = 7"
  "WEXT_PNO_MAX_COMMAND_SIZE roomy_consts = 566"
  "WEXT_PNO_SCAN_INTERVAL_LENGTH roomy_consts = 2"
  "WEXT_PNO_REPEAT_LENGTH roomy_consts = 1"
  "WEXT_PNO_MAX_REPEAT_LENGTH roomy_consts = 1"
  by (simp_all add: roomy_consts_def example_consts_def)

text \<open>
  Claim C5. A list with more than \<^verbatim>\<open>WEXT_PNO_AMOUNT\<close> eligible entries does not always give
  \<^verbatim>\<open>WEXT_PNO_AMOUNT\<close> SSID sections. With sixteen slots, an array of 565 bytes, which is the
  header, the preamble, sixteen sections of maximal size, the trailing sections and a NUL,
  and seventeen enabled networks whose SSIDs have 32 bytes, the buffer handed to the ioctl
  holds the preamble, fifteen SSID sections and then the scan-interval section, and its
  count is 531. After fifteen sections \<^verbatim>\<open>bp\<close> is 523, and the check before the sixteenth
  compares 523 + 2 + 32 + 7 + 1 = 565 with the size of the array by \<^verbatim>\<open>>=\<close>: the loop ends
  although the section, the trailing sections and the NUL fit. With one more byte in the
  array the same list gives sixteen sections.
\<close>

theorem pno_sixteenth_ssid_dropped:
  "length (filter eligible networks17) = 17
   \<and> WEXT_PNO_AMOUNT example_consts = 16
   \<and> WEXT_PNOSETUP_HEADER_SIZE example_consts + 4
        + WEXT_PNO_AMOUNT example_consts * (WEXT_PNO_SSID_HEADER_SIZE example_consts + IW_ESSID_MAX_SIZE)
        + WEXT_PNO_NONSSID_SECTIONS_SIZE example_consts + 1
       = WEXT_PNO_MAX_COMMAND_SIZE example_consts
   \<and> map_option (\<lambda>(buf, bp). (take 524 buf, bp))
        (pno_setup_buffer example_consts example_kernel networks17)
       = Some (pno_preamble example_consts @ ssid_sections example_consts (take 15 networks17)
                 @ [WEXT_PNO_SCAN_INTERVAL_SECTION example_consts], 531)
   \<and> map_option (\<lambda>(buf, bp). (take 558 buf, bp))
        (pno_setup_buffer roomy_consts example_kernel networks17)
       = Some (pno_preamble roomy_consts @ ssid_sections roomy_consts (take 16 networks17)
                 @ [WEXT_PNO_SCAN_INTERVAL_SECTION roomy_consts], 565)"
proof -
  have taken: "pno_taken example_consts 0 13 networks17 = take 15 networks17"
    by (simp add: networks17_def)
  have len: "length (ssid_sections example_consts (take 15 networks17)) = 510"
    by (simp add: networks17_def ssid_sections_def length_ssid_section)
  obtain buf where "pno_setup_buffer example_consts example_kernel networks17 = Some (buf, 531)"
    and "take 524 buf = pno_preamble example_consts
                          @ ssid_sections example_consts (take 15 networks17)
                          @ [WEXT_PNO_SCAN_INTERVAL_SECTION example_consts]"
    using pno_setup_buffer_result(1) [where k = example_consts and e = example_kernel
            and ssid_conf = networks17, OF _ _ _ _ refl refl]
    by (auto simp: taken len)
  moreover
  have taken': "pno_taken roomy_consts 0 13 networks17 = take 16 networks17"
    by (simp add: networks17_def)
  have len': "length (ssid_sections roomy_consts (take 16 networks17)) = 544"
    by (simp add: networks17_def ssid_sections_def length_ssid_section)
  obtain buf' where "pno_setup_buffer roomy_consts example_kernel networks17 = Some (buf', 565)"
    and "take 558 buf' = pno_preamble roomy_consts
                          @ ssid_sections roomy_consts (take 16 networks17)
                          @ [WEXT_PNO_SCAN_INTERVAL_SECTION roomy_consts]"
    using pno_setup_buffer_result(1) [where k = roomy_consts and e = example_kernel
            and ssid_conf = networks17, OF _ _ _ _ refl refl]
    by (auto simp: taken' len')
  ultimately show ?thesis
    by (simp add: networks17_def IW_ESSID_MAX_SIZE_def)
qed

section \<open>Properties of the error counter and of the dispatcher\<close>

lemma backgroundscan_params_result:
  assumes "ctx drv = Some wpa_s" and "conf wpa_s = Some ssid_conf"
    and "pno_setup_buffer k e ssid_conf = Some (buf, bp)"
    and "r = ioctl_pnosetup e buf bp"
  shows "wpa_driver_set_backgroundscan_params k e drv =
           Some (r,
                 drv\<lparr>errors := (if r < 0 \<and> errors drv + 1 \<le> DRV_NUMBER_SEQUENTIAL_ERRORS k
                                  then errors drv + 1 else 0)\<rparr>,
                 Ioctl_SIOCSIWPRIV buf bp
                   # (if r < 0 \<and> errors drv + 1 > DRV_NUMBER_SEQUENTIAL_ERRORS k
                      then [HANGED] else []))"
  using assms by (simp add: wpa_driver_set_backgroundscan_params_def Let_def HANGED_def)

lemma backgroundscan_calls_failing:
  assumes buf: "\<And>e. \<exists>buf bp. pno_setup_buffer k e ssid_conf = Some (buf, bp)"
    and conf: "conf wpa_s = Some ssid_conf"
  shows "\<forall>e\<in>set es. \<forall>buf bp. ioctl_pnosetup e buf bp < 0 \<Longrightarrow>
         ctx drv = Some wpa_s \<Longrightarrow> errors drv \<le> DRV_NUMBER_SEQUENTIAL_ERRORS k \<Longrightarrow>
         errors drv + int (length es) = DRV_NUMBER_SEQUENTIAL_ERRORS k + 1 \<Longrightarrow>
         \<exists>fx. backgroundscan_calls k es drv = Some (drv\<lparr>errors := 0\<rparr>, fx)
               \<and> length (filter (\<lambda>x. x = HANGED) fx) = 1"
proof (induction es arbitrary: drv)
  case Nil
  then show ?case by simp
next
  case (Cons e es)
  obtain buf bp where b: "pno_setup_buffer k e ssid_conf = Some (buf, bp)"
    using buf by blast
  define r where "r = ioctl_pnosetup e buf bp"
  have neg: "r < 0"
    using Cons.prems(1) by (simp add: r_def)
  note step = backgroundscan_params_result [OF Cons.prems(2) conf b r_def]
  show ?case
  proof (cases "es = []")
    case True
    then have "errors drv + 1 > DRV_NUMBER_SEQUENTIAL_ERRORS k"
      using Cons.prems(4) by simp
    then show ?thesis
      using True neg by (simp add: step HANGED_def)
  next
    case False
    then have small: "errors drv + 1 \<le> DRV_NUMBER_SEQUENTIAL_ERRORS k"
      using Cons.prems(4) by (cases es) auto
    let ?drv = "drv\<lparr>errors := errors drv + 1\<rparr>"
    have "\<exists>fx. backgroundscan_calls k es ?drv = Some (?drv\<lparr>errors := 0\<rparr>, fx)
               \<and> length (filter (\<lambda>x. x = HANGED) fx) = 1"
      using Cons.prems small by (intro Cons.IH) auto
    then obtain fx where fx: "backgroundscan_calls k es ?drv = Some (drv\<lparr>errors := 0\<rparr>, fx)"
      "length (filter (\<lambda>x. x = HANGED) fx) = 1"
      by auto
    show ?thesis
      using small neg fx by (simp add: step HANGED_def)
  qed
qed

lemma driver_cmd_ioctl_overrides:
  assumes "driver_cmd_ioctl k e drv cmd buf len fx = Some out"
  shows "0 \<le> ret out" and "errors (drv_after out) = 0"
    and "\<exists>rest. effects out = fx @ Ioctl_SIOCSIWPRIV buf len # rest \<and> HANGED \<notin> set rest"
    and "bgscan_enabled (drv_after out) = bgscan_enabled drv"
  using assms
  by (auto simp: driver_cmd_ioctl_def Let_def HANGED_def wpa_driver_wext_set_scan_timeout_def
           split: prod.splits if_splits Option.bind_splits)

lemma driver_cmd_ioctl_ignores_ret:
  "driver_cmd_ioctl k (e\<lparr>ioctl_cmd := \<lambda>b n. (r, snd (ioctl_cmd e b n))\<rparr>) drv cmd buf len fx
     = driver_cmd_ioctl k e drv cmd buf len fx"
  by (simp add: driver_cmd_ioctl_def Let_def split: prod.splits)

lemma tolower_c_literals [simp]:
  "tolower_c CHR ''A'' = CHR ''a''" "tolower_c CHR ''B'' = CHR ''b''" "tolower_c CHR ''C'' = CHR ''c''"
  "tolower_c CHR ''D'' = CHR ''d''" "tolower_c CHR ''E'' = CHR ''e''" "tolower_c CHR ''F'' = CHR ''f''"
  "tolower_c CHR ''G'' = CHR ''g''" "tolower_c CHR ''H'' = CHR ''h''" "tolower_c CHR ''I'' = CHR ''i''"
  "tolower_c CHR ''J'' = CHR ''j''" "tolower_c CHR ''K'' = CHR ''k''" "tolower_c CHR ''L'' = CHR ''l''"
  "tolower_c CHR ''M'' = CHR ''m''" "tolower_c CHR ''N'' = CHR ''n''" "tolower_c CHR ''O'' = CHR ''o''"
  "tolower_c CHR ''P'' = CHR ''p''" "tolower_c CHR ''Q'' = CHR ''q''" "tolower_c CHR ''R'' = CHR ''r''"
  "tolower_c CHR ''S'' = CHR ''s''" "tolower_c CHR ''T'' = CHR ''t''" "tolower_c CHR ''U'' = CHR ''u''"
  "tolower_c CHR ''V'' = CHR ''v''" "tolower_c CHR ''W'' = CHR ''w''" "tolower_c CHR ''X'' = CHR ''x''"
  "tolower_c CHR ''Y'' = CHR ''y''" "tolower_c CHR ''Z'' = CHR ''z''" "tolower_c CHR ''-'' = CHR ''-''"
  "tolower_c CHR '' '' = CHR '' ''" "tolower_c CHR ''0'' = CHR ''0''" "tolower_c CHR ''1'' = CHR ''1''"
  "tolower_c CHR ''4'' = CHR ''4''"
  by (simp_all add: tolower_c_def)

lemma os_strcasecmp_Cons_0_iff:
  "tolower_c b \<noteq> CHR 0x00 \<Longrightarrow>
   os_strcasecmp a (b # bs) = 0 \<longleftrightarrow>
     (\<exists>a' as. a = a' # as \<and> tolower_c a' = tolower_c b \<and> os_strcasecmp as bs = 0)"
  by (auto elim: os_strcasecmp_Cons_0E)

lemma strcasecmp_START:
  assumes "os_strcasecmp cmd ''START'' = 0"
  obtains c1 c2 c3 c4 c5 rest where "cmd = c1 # c2 # c3 # c4 # c5 # rest"
    and "tolower_c c1 = CHR ''s''" and "tolower_c c2 = CHR ''t''" and "tolower_c c3 = CHR ''a''"
    and "tolower_c c4 = CHR ''r''" and "tolower_c c5 = CHR ''t''"
    and "os_strcasecmp rest [] = 0"
  using assms by (auto simp: os_strcasecmp_Cons_0_iff)

lemma strncasecmp_CSCAN:
  assumes "os_strncasecmp cmd ''CSCAN'' 5 = 0"
  obtains c1 c2 c3 c4 c5 rest where "cmd = c1 # c2 # c3 # c4 # c5 # rest"
    and "tolower_c c1 = CHR ''c''" and "tolower_c c2 = CHR ''s''" and "tolower_c c3 = CHR ''c''"
    and "tolower_c c4 = CHR ''a''" and "tolower_c c5 = CHR ''n''"
proof -
  from assms obtain c1 c2 c3 c4 c5 r where t: "take 5 cmd = c1 # c2 # c3 # c4 # c5 # r"
    and l: "tolower_c c1 = CHR ''c''" "tolower_c c2 = CHR ''s''" "tolower_c c3 = CHR ''c''"
      "tolower_c c4 = CHR ''a''" "tolower_c c5 = CHR ''n''"
    by (auto simp: os_strncasecmp_def os_strcasecmp_Cons_0_iff)
  have "length (take 5 cmd) \<le> 5" by simp
  then have "r = []" unfolding t by simp
  with t have "cmd = c1 # c2 # c3 # c4 # c5 # drop 5 cmd"
    by (intro take_5_eq) simp
  with l that show ?thesis by blast
qed

lemma strncasecmp_SCAN_CHANNELS:
  assumes "os_strncasecmp cmd ''SCAN-CHANNELS'' 13 = 0"
  obtains c1 rest where "cmd = c1 # rest" and "tolower_c c1 = CHR ''s''"
proof -
  from assms obtain c1 r where t: "take 13 cmd = c1 # r" and l: "tolower_c c1 = CHR ''s''"
    by (auto simp: os_strncasecmp_def os_strcasecmp_Cons_0_iff)
  then have "cmd = c1 # tl cmd"
    by (cases cmd) auto
  with l that show ?thesis by blast
qed

lemma pno_setup_buffer_ignores_ioctl_cmd:
  "pno_setup_buffer k (e\<lparr>ioctl_cmd := f\<rparr>) ssid_conf = pno_setup_buffer k e ssid_conf"
  by (simp add: pno_setup_buffer_def pno_header_def)

lemma backgroundscan_params_ignores_ioctl_cmd:
  "wpa_driver_set_backgroundscan_params k (e\<lparr>ioctl_cmd := f\<rparr>) drv
     = wpa_driver_set_backgroundscan_params k e drv"
  by (simp add: wpa_driver_set_backgroundscan_params_def pno_setup_buffer_ignores_ioctl_cmd
           split: option.splits)

lemma driver_cmd_rewrite_ignores_ioctl_cmd:
  "driver_cmd_rewrite k (e\<lparr>ioctl_cmd := f\<rparr>) drv cmd = driver_cmd_rewrite k e drv cmd"
  by (simp add: driver_cmd_rewrite_def backgroundscan_params_ignores_ioctl_cmd)

lemma backgroundscan_params_success:
  assumes "wpa_driver_set_backgroundscan_params k e drv = Some (r, drv', fx)" and "0 \<le> r"
  shows "drv' = drv\<lparr>errors := 0\<rparr>" and "HANGED \<notin> set fx"
  using assms
  by (auto simp: wpa_driver_set_backgroundscan_params_def Let_def HANGED_def
           split: option.splits if_splits Option.bind_splits)

lemma driver_cmd_rewrite_props:
  assumes "driver_cmd_rewrite k e drv cmd = Some (returned, r, drv', cmd', fx)"
    and "\<And>r drv' fx. os_strcasecmp cmd ''BGSCAN-START'' = 0 \<Longrightarrow>
           wpa_driver_set_backgroundscan_params k e drv = Some (r, drv', fx) \<Longrightarrow> 0 \<le> r"
  shows "0 \<le> r"
    and "errors drv' = 0 \<or> errors drv' = errors drv"
    and "HANGED \<in> set fx \<longrightarrow> os_strcasecmp cmd ''RELOAD'' = 0"
proof -
  show "0 \<le> r"
    using assms
    by (auto simp: driver_cmd_rewrite_def Let_def split: if_splits Option.bind_splits)
  show "errors drv' = 0 \<or> errors drv' = errors drv"
  proof (cases "os_strcasecmp cmd ''RSSI-APPROX'' \<noteq> 0
                \<and> os_strncasecmp cmd ''SCAN-CHANNELS'' 13 \<noteq> 0
                \<and> os_strcasecmp cmd ''STOP'' \<noteq> 0 \<and> os_strcasecmp cmd ''RELOAD'' \<noteq> 0
                \<and> os_strcasecmp cmd ''BGSCAN-START'' = 0")
    case True
    then obtain r0 drv0 fx0 where
      b: "wpa_driver_set_backgroundscan_params k e drv = Some (r0, drv0, fx0)"
      and d: "errors drv' = errors drv0"
      using assms(1)
      by (auto simp: driver_cmd_rewrite_def split: if_splits Option.bind_splits)
    from assms(2) [OF _ b] True have "0 \<le> r0" by simp
    from backgroundscan_params_success(1) [OF b this] d show ?thesis by simp
  next
    case False
    with assms(1) show ?thesis
      by (auto simp: driver_cmd_rewrite_def Let_def split: if_splits)
  qed
  show "HANGED \<in> set fx \<longrightarrow> os_strcasecmp cmd ''RELOAD'' = 0"
    using assms
    by (auto simp: driver_cmd_rewrite_def Let_def HANGED_def split: if_splits Option.bind_splits
             dest: backgroundscan_params_success(2))
qed

lemma driver_cmd_override_props:
  assumes run: "wpa_driver_wext_driver_cmd k e drv cmd buf buf_len = Some out"
    and guard: "driver_is_started drv \<or> os_strcasecmp cmd ''START'' = 0"
    and pno: "\<And>r drv' fx. os_strcasecmp cmd ''BGSCAN-START'' = 0 \<Longrightarrow>
                wpa_driver_set_backgroundscan_params k e drv = Some (r, drv', fx) \<Longrightarrow> 0 \<le> r"
  shows "0 \<le> ret out
         \<and> wpa_driver_wext_driver_cmd k (e\<lparr>ioctl_cmd := \<lambda>b n. (r', snd (ioctl_cmd e b n))\<rparr>)
               drv cmd buf buf_len = Some out
         \<and> (errors (drv_after out) = 0 \<or> errors (drv_after out) = errors drv)
         \<and> (HANGED \<in> set (effects out) \<longrightarrow> os_strcasecmp cmd ''RELOAD'' = 0)"
proof -
  from run guard obtain returned r0 drv0 cmd0 fx0 where
    rw: "driver_cmd_rewrite k e drv cmd = Some (returned, r0, drv0, cmd0, fx0)"
    by (auto simp: wpa_driver_wext_driver_cmd_def split: Option.bind_splits)
  have P: "0 \<le> r0" "errors drv0 = 0 \<or> errors drv0 = errors drv"
    "HANGED \<in> set fx0 \<longrightarrow> os_strcasecmp cmd ''RELOAD'' = 0"
    by (rule driver_cmd_rewrite_props [OF rw]; rule pno; assumption)+
  have indep: "wpa_driver_wext_driver_cmd k (e\<lparr>ioctl_cmd := \<lambda>b n. (r', snd (ioctl_cmd e b n))\<rparr>)
                 drv cmd buf buf_len = wpa_driver_wext_driver_cmd k e drv cmd buf buf_len"
    unfolding wpa_driver_wext_driver_cmd_def
    by (simp only: driver_cmd_rewrite_ignores_ioctl_cmd driver_cmd_ioctl_ignores_ret)
  show ?thesis
  proof (cases "returned \<or> (os_strncasecmp cmd0 ''CSCAN'' 5 = 0
       \<and> (\<exists>wpa_s. ctx drv0 = Some wpa_s \<and> \<not> (scanning wpa_s = 0
             \<and> (wpa_state wpa_s \<le> WPA_SCANNING k \<or> wpa_state wpa_s \<ge> WPA_COMPLETED k))))")
    case True
    then have "ret out = r0 \<and> drv_after out = drv0 \<and> effects out = fx0"
      using run guard rw
      by (auto simp: wpa_driver_wext_driver_cmd_def split: Option.bind_splits if_splits)
    with P indep run show ?thesis by simp
  next
    case False
    then obtain cmd1 buf1 len1 where io: "driver_cmd_ioctl k e drv0 cmd1 buf1 len1 fx0 = Some out"
      using run guard rw
      by (auto simp: wpa_driver_wext_driver_cmd_def
               split: Option.bind_splits if_splits option.splits)
    from driver_cmd_ioctl_overrides(1-3) [OF io] P indep run show ?thesis
      by (auto simp: HANGED_def)
  qed
qed

lemma memcpy_cmd:
  "length cmd < length buf \<Longrightarrow>
   os_memcpy buf 0 (bytes_of cmd @ [0]) = Some (bytes_of cmd @ 0 # drop (Suc (length cmd)) buf)"
  by (simp add: os_memcpy_def bytes_of_def)

lemma backgroundscan_params_defined:
  assumes "WEXT_PNOSETUP_HEADER_SIZE k \<le> length (WEXT_PNOSETUP_HEADER k) + 1"
    and "WEXT_PNOSETUP_HEADER_SIZE k + 4 + WEXT_PNO_NONSSID_SECTIONS_SIZE k + 1
           \<le> WEXT_PNO_MAX_COMMAND_SIZE k"
    and "WEXT_PNO_SCAN_INTERVAL_LENGTH k + WEXT_PNO_REPEAT_LENGTH k
           + WEXT_PNO_MAX_REPEAT_LENGTH k + 3 \<le> WEXT_PNO_NONSSID_SECTIONS_SIZE k"
    and "1 \<le> WEXT_PNO_SSID_HEADER_SIZE k"
  shows "\<exists>r drv' fx. wpa_driver_set_backgroundscan_params k e drv = Some (r, drv', fx)
           \<and> ctx drv' = ctx drv"
proof (cases "ctx drv")
  case None
  then show ?thesis by (simp add: wpa_driver_set_backgroundscan_params_def)
next
  case (Some wpa_s)
  show ?thesis
  proof (cases "conf wpa_s")
    case None
    with Some show ?thesis by (simp add: wpa_driver_set_backgroundscan_params_def)
  next
    case (Some ssid_conf)
    obtain b p where bp: "pno_setup_buffer k e ssid_conf = Some (b, p)"
      using pno_setup_buffer_result(1)
              [where e = e and ssid_conf = ssid_conf, OF assms refl refl]
      by blast
    from backgroundscan_params_result [OF \<open>ctx drv = Some wpa_s\<close> Some bp refl]
    show ?thesis by simp
  qed
qed

lemma driver_cmd_rewrite_defined:
  assumes "WEXT_PNOSETUP_HEADER_SIZE k \<le> length (WEXT_PNOSETUP_HEADER k) + 1"
    and "WEXT_PNOSETUP_HEADER_SIZE k + 4 + WEXT_PNO_NONSSID_SECTIONS_SIZE k + 1
           \<le> WEXT_PNO_MAX_COMMAND_SIZE k"
    and "WEXT_PNO_SCAN_INTERVAL_LENGTH k + WEXT_PNO_REPEAT_LENGTH k
           + WEXT_PNO_MAX_REPEAT_LENGTH k + 3 \<le> WEXT_PNO_NONSSID_SECTIONS_SIZE k"
    and "1 \<le> WEXT_PNO_SSID_HEADER_SIZE k"
  shows "\<exists>returned r drv' cmd' fx.
           driver_cmd_rewrite k e drv cmd = Some (returned, r, drv', cmd', fx)
           \<and> ctx drv' = ctx drv \<and> (length cmd' \<le> length cmd \<or> length cmd' \<le> 10)"
proof -
  obtain r0 drv0 fx0 where
    b: "wpa_driver_set_backgroundscan_params k e drv = Some (r0, drv0, fx0)" "ctx drv0 = ctx drv"
    using backgroundscan_params_defined [OF assms, of e drv] by blast
  have "length (wpa_driver_get_country_code k n) = 2" for n
    by (simp add: wpa_driver_get_country_code_def)
  then show ?thesis
    using b
    by (auto simp: driver_cmd_rewrite_def os_strncpy_def os_snprintf_def RSSI_CMD_def Let_def)
qed

lemma driver_cmd_ioctl_defined:
  assumes "\<And>b n. 0 \<in> set (snd (ioctl_cmd e b n))"
  shows "\<exists>out. driver_cmd_ioctl k e drv cmd buf len fx = Some out"
proof -
  obtain r reply where io: "ioctl_cmd e buf len = (r, reply)"
    by (cases "ioctl_cmd e buf len") auto
  with assms [of buf len] have "0 \<in> set reply" by simp
  then show ?thesis
    by (simp add: driver_cmd_ioctl_def io Let_def strlen_buf_def)
qed

lemma cscan_params_defined:
  assumes "5 \<le> length cmd"
    and "WEXT_CSCAN_HEADER_SIZE k \<le> length (WEXT_CSCAN_HEADER k) + 1"
    and "WEXT_CSCAN_PASV_DWELL_TIME_DEF k \<noteq> 0"
    and "WEXT_CSCAN_HEADER_SIZE k + 10 \<le> buf_len"
    and "buf_len \<le> length buf"
  shows "\<exists>bp buf' cmd'. wpa_driver_wext_set_cscan_params k buf buf_len cmd = Some (bp, buf', cmd')"
proof -
  obtain cmd' dwell channel where parse: "cscan_parse k cmd = (cmd', dwell, channel)"
    by (cases "cscan_parse k cmd") auto
  from cscan_params_layout(1) [OF assms(1,2,4,5) parse assms(3) refl refl refl refl refl]
  show ?thesis by blast
qed

lemma wpa_driver_wext_driver_cmd_defined:
  assumes "WEXT_CSCAN_HEADER_SIZE k \<le> length (WEXT_CSCAN_HEADER k) + 1"
    and "WEXT_CSCAN_PASV_DWELL_TIME_DEF k \<noteq> 0"
    and "WEXT_CSCAN_HEADER_SIZE k + 10 \<le> buf_len"
    and "buf_len \<le> length buf"
    and "WEXT_PNOSETUP_HEADER_SIZE k \<le> length (WEXT_PNOSETUP_HEADER k) + 1"
    and "WEXT_PNOSETUP_HEADER_SIZE k + 4 + WEXT_PNO_NONSSID_SECTIONS_SIZE k + 1
           \<le> WEXT_PNO_MAX_COMMAND_SIZE k"
    and "WEXT_PNO_SCAN_INTERVAL_LENGTH k + WEXT_PNO_REPEAT_LENGTH k
           + WEXT_PNO_MAX_REPEAT_LENGTH k + 3 \<le> WEXT_PNO_NONSSID_SECTIONS_SIZE k"
    and "1 \<le> WEXT_PNO_SSID_HEADER_SIZE k"
    and "ctx drv = Some wpa_s"
    and "length cmd < length buf" and "11 \<le> length buf"
    and "\<And>b n. 0 \<in> set (snd (ioctl_cmd e b n))"
  shows "\<exists>out. wpa_driver_wext_driver_cmd k e drv cmd buf buf_len = Some out"
proof (cases "\<not> driver_is_started drv \<and> os_strcasecmp cmd ''START'' \<noteq> 0")
  case True
  then show ?thesis by (simp add: wpa_driver_wext_driver_cmd_def)
next
  case guard: False
  obtain returned r0 drv0 cmd0 fx0 where
    rw: "driver_cmd_rewrite k e drv cmd = Some (returned, r0, drv0, cmd0, fx0)"
    and cx: "ctx drv0 = ctx drv" and ln: "length cmd0 \<le> length cmd \<or> length cmd0 \<le> 10"
    using driver_cmd_rewrite_defined [OF assms(5-8), of e drv cmd] by blast
  show ?thesis
  proof (cases returned)
    case True
    with guard rw show ?thesis by (simp add: wpa_driver_wext_driver_cmd_def)
  next
    case False
    have fit: "length cmd0 < length buf"
      using ln assms(10,11) by auto
    define buf1 where "buf1 = bytes_of cmd0 @ 0 # drop (Suc (length cmd0)) buf"
    have mc: "os_memcpy buf 0 (bytes_of cmd0 @ [0]) = Some buf1"
      using memcpy_cmd [OF fit] by (simp add: buf1_def)
    have l1: "length buf1 = length buf"
      using fit by (simp add: buf1_def bytes_of_def)
    show ?thesis
    proof (cases "os_strncasecmp cmd0 ''CSCAN'' 5 = 0")
      case nc: False
      obtain out where "driver_cmd_ioctl k e drv0 cmd0 buf1 buf_len fx0 = Some out"
        using driver_cmd_ioctl_defined [OF assms(12)] by blast
      with guard rw False nc mc show ?thesis
        by (simp add: wpa_driver_wext_driver_cmd_def)
    next
      case c: True
      then have five: "5 \<le> length cmd0"
        by (auto elim: strncasecmp_CSCAN)
      obtain bp buf2 cmd2 where
        enc: "wpa_driver_wext_set_cscan_params k buf1 buf_len cmd0 = Some (bp, buf2, cmd2)"
        using cscan_params_defined [OF five assms(1-3), of buf1] assms(4) l1 by auto
      obtain out where "driver_cmd_ioctl k e drv0 cmd2 buf2 (nat bp) fx0 = Some out"
        using driver_cmd_ioctl_defined [OF assms(12)] by blast
      with guard rw False c mc enc cx assms(9) show ?thesis
        by (simp add: wpa_driver_wext_driver_cmd_def)
    qed
  qed
qed

text \<open>
  Claim C1. For a command that passes the check of the Stopped state and, for
  \<^verbatim>\<open>BGSCAN-START\<close>, whose PNO setup did not fail, every call that is well defined returns a
  value that is not negative; the whole result is the same whatever value the ioctl
  returns; the error counter is left as it was or reset to 0, never incremented; and a
  \<^verbatim>\<open>HANGED\<close> event is emitted for \<^verbatim>\<open>RELOAD\<close> only. The call is well defined when the
  buffers are large enough for the encoders and for the command, \<^verbatim>\<open>drv->ctx\<close> is not null
  and the driver leaves a string in the reply buffer.
\<close>

theorem driver_cmd_ioctl_result_overridden:
  assumes "driver_is_started drv \<or> os_strcasecmp cmd ''START'' = 0"
    and "\<And>r drv' fx. os_strcasecmp cmd ''BGSCAN-START'' = 0 \<Longrightarrow>
           wpa_driver_set_backgroundscan_params k e drv = Some (r, drv', fx) \<Longrightarrow> 0 \<le> r"
  shows "(\<forall>out. wpa_driver_wext_driver_cmd k e drv cmd buf buf_len = Some out \<longrightarrow>
            0 \<le> ret out
            \<and> (\<forall>r'. wpa_driver_wext_driver_cmd k
                        (e\<lparr>ioctl_cmd := \<lambda>b n. (r', snd (ioctl_cmd e b n))\<rparr>)
                        drv cmd buf buf_len = Some out)
            \<and> (errors (drv_after out) = 0 \<or> errors (drv_after out) = errors drv)
            \<and> (HANGED \<in> set (effects out) \<longrightarrow> os_strcasecmp cmd ''RELOAD'' = 0))
       \<and> (WEXT_CSCAN_HEADER_SIZE k \<le> length (WEXT_CSCAN_HEADER k) + 1
          \<and> WEXT_CSCAN_PASV_DWELL_TIME_DEF k \<noteq> 0
          \<and> WEXT_CSCAN_HEADER_SIZE k + 10 \<le> buf_len \<and> buf_len \<le> length buf
          \<and> WEXT_PNOSETUP_HEADER_SIZE k \<le> length (WEXT_PNOSETUP_HEADER k) + 1
          \<and> WEXT_PNOSETUP_HEADER_SIZE k + 4 + WEXT_PNO_NONSSID_SECTIONS_SIZE k + 1
               \<le> WEXT_PNO_MAX_COMMAND_SIZE k
          \<and> WEXT_PNO_SCAN_INTERVAL_LENGTH k + WEXT_PNO_REPEAT_LENGTH k
               + WEXT_PNO_MAX_REPEAT_LENGTH k + 3 \<le> WEXT_PNO_NONSSID_SECTIONS_SIZE k
          \<and> 1 \<le> WEXT_PNO_SSID_HEADER_SIZE k
          \<and> ctx drv \<noteq> None
          \<and> length cmd < length buf \<and> 11 \<le> length buf
          \<and> (\<forall>b n. 0 \<in> set (snd (ioctl_cmd e b n)))
          \<longrightarrow> (\<exists>out. wpa_driver_wext_driver_cmd k e drv cmd buf buf_len = Some out))"
proof (intro conjI allI impI)
  fix out r'
  assume run: "wpa_driver_wext_driver_cmd k e drv cmd buf buf_len = Some out"
  note P = driver_cmd_override_props [OF run assms(1) assms(2), where r' = r']
  show "0 \<le> ret out" using P by simp
  show "wpa_driver_wext_driver_cmd k (e\<lparr>ioctl_cmd := \<lambda>b n. (r', snd (ioctl_cmd e b n))\<rparr>)
          drv cmd buf buf_len = Some out"
    using P by simp
  show "errors (drv_after out) = 0 \<or> errors (drv_after out) = errors drv"
    using P by simp
  show "os_strcasecmp cmd ''RELOAD'' = 0" if "HANGED \<in> set (effects out)"
    using P that by simp
next
  assume c: "WEXT_CSCAN_HEADER_SIZE k \<le> length (WEXT_CSCAN_HEADER k) + 1
          \<and> WEXT_CSCAN_PASV_DWELL_TIME_DEF k \<noteq> 0
          \<and> WEXT_CSCAN_HEADER_SIZE k + 10 \<le> buf_len \<and> buf_len \<le> length buf
          \<and> WEXT_PNOSETUP_HEADER_SIZE k \<le> length (WEXT_PNOSETUP_HEADER k) + 1
          \<and> WEXT_PNOSETUP_HEADER_SIZE k + 4 + WEXT_PNO_NONSSID_SECTIONS_SIZE k + 1
               \<le> WEXT_PNO_MAX_COMMAND_SIZE k
          \<and> WEXT_PNO_SCAN_INTERVAL_LENGTH k + WEXT_PNO_REPEAT_LENGTH k
               + WEXT_PNO_MAX_REPEAT_LENGTH k + 3 \<le> WEXT_PNO_NONSSID_SECTIONS_SIZE k
          \<and> 1 \<le> WEXT_PNO_SSID_HEADER_SIZE k
          \<and> ctx drv \<noteq> None
          \<and> length cmd < length buf \<and> 11 \<le> length buf
          \<and> (\<forall>b n. 0 \<in> set (snd (ioctl_cmd e b n)))"
  then obtain wpa_s where "ctx drv = Some wpa_s" by auto
  with c show "\<exists>out. wpa_driver_wext_driver_cmd k e drv cmd buf buf_len = Some out"
    by (intro wpa_driver_wext_driver_cmd_defined [where wpa_s = wpa_s]) auto
qed

lemma getband_run:
  "wpa_driver_wext_driver_cmd example_consts failing_kernel started_drv ''GETBAND'' buf24 24
     = Some getband_out"
  by (simp add: wpa_driver_wext_driver_cmd_def driver_cmd_rewrite_def driver_cmd_ioctl_def
        os_strncasecmp_def RSSI_CMD_def LINKSPEED_CMD_def started_drv_def failing_kernel_def
        os_memcpy_def bytes_of_def buf24_def strlen_buf_def getband_out_def getband_buf_def)

text \<open>Claim C1, witness: \<^verbatim>\<open>GETBAND\<close> on a started driver whose ioctl fails with -1.\<close>

theorem driver_cmd_ioctl_result_overridden_witness:
  "fst (ioctl_cmd failing_kernel getband_buf 24) < 0
   \<and> driver_is_started started_drv
   \<and> wpa_driver_wext_driver_cmd example_consts failing_kernel started_drv ''GETBAND'' buf24 24
       = Some getband_out
   \<and> 0 \<le> ret getband_out
   \<and> wpa_driver_wext_driver_cmd example_consts
         (failing_kernel\<lparr>ioctl_cmd := \<lambda>b n. (0, snd (ioctl_cmd failing_kernel b n))\<rparr>)
         started_drv ''GETBAND'' buf24 24 = Some getband_out
   \<and> errors (drv_after getband_out) = 0
   \<and> HANGED \<notin> set (effects getband_out)
   \<and> (\<forall>b n. 0 \<in> set (snd (ioctl_cmd failing_kernel b n)))"
proof -
  have fails: "fst (ioctl_cmd failing_kernel getband_buf 24) < 0"
    and nul: "\<forall>b n. 0 \<in> set (snd (ioctl_cmd failing_kernel b n))"
    by (simp_all add: failing_kernel_def)
  have started: "driver_is_started started_drv"
    by (simp add: started_drv_def)
  have reset: "errors (drv_after getband_out) = 0"
    by (simp add: getband_out_def)
  have "os_strcasecmp ''GETBAND'' ''RELOAD'' \<noteq> 0"
    by simp
  then show ?thesis
    using driver_cmd_ioctl_result_overridden
            [where k = example_consts and e = failing_kernel and drv = started_drv
               and cmd = "''GETBAND''" and buf = buf24 and buf_len = 24]
          fails nul
    by (simp add: getband_run started reset)
qed

text \<open>
  Claim C2, as amended. In \<^verbatim>\<open>wpa_driver_set_backgroundscan_params\<close> a failed ioctl
  increments the error counter; when the incremented counter exceeds
  \<^verbatim>\<open>DRV_NUMBER_SEQUENTIAL_ERRORS\<close> it is reset to 0 and one \<^verbatim>\<open>HANGED\<close> event is emitted; a
  successful ioctl resets the counter to 0. From a counter of 0, one more failure than
  the threshold in a row gives exactly one \<^verbatim>\<open>HANGED\<close> event and a counter of 0. In
  \<^verbatim>\<open>wpa_driver_wext_driver_cmd\<close> the result of the ioctl is overwritten: the counter is
  reset to 0 and no \<^verbatim>\<open>HANGED\<close> event follows the ioctl, whether it failed or not.
\<close>

theorem error_counter_policy:
  assumes "WEXT_PNOSETUP_HEADER_SIZE k \<le> length (WEXT_PNOSETUP_HEADER k) + 1"
    and "WEXT_PNOSETUP_HEADER_SIZE k + 4 + WEXT_PNO_NONSSID_SECTIONS_SIZE k + 1
           \<le> WEXT_PNO_MAX_COMMAND_SIZE k"
    and "WEXT_PNO_SCAN_INTERVAL_LENGTH k + WEXT_PNO_REPEAT_LENGTH k
           + WEXT_PNO_MAX_REPEAT_LENGTH k + 3 \<le> WEXT_PNO_NONSSID_SECTIONS_SIZE k"
    and "1 \<le> WEXT_PNO_SSID_HEADER_SIZE k"
    and "ctx drv = Some wpa_s"
    and "conf wpa_s = Some ssid_conf"
  shows "(\<exists>buf bp r. pno_setup_buffer k e ssid_conf = Some (buf, bp)
            \<and> r = ioctl_pnosetup e buf bp
            \<and> wpa_driver_set_backgroundscan_params k e drv
                = Some (r,
                        drv\<lparr>errors := (if r < 0 \<and> errors drv + 1 \<le> DRV_NUMBER_SEQUENTIAL_ERRORS k
                                         then errors drv + 1 else 0)\<rparr>,
                        Ioctl_SIOCSIWPRIV buf bp
                          # (if r < 0 \<and> errors drv + 1 > DRV_NUMBER_SEQUENTIAL_ERRORS k
                             then [HANGED] else [])))
       \<and> (errors drv = 0 \<and> 0 \<le> DRV_NUMBER_SEQUENTIAL_ERRORS k
            \<and> length es = nat (DRV_NUMBER_SEQUENTIAL_ERRORS k) + 1
            \<and> (\<forall>e\<in>set es. \<forall>buf bp. ioctl_pnosetup e buf bp < 0)
          \<longrightarrow> (\<exists>fx. backgroundscan_calls k es drv = Some (drv\<lparr>errors := 0\<rparr>, fx)
                    \<and> length (filter (\<lambda>x. x = HANGED) fx) = 1))
       \<and> (\<forall>out. driver_cmd_ioctl k e drv cmd buf len fx0 = Some out
          \<longrightarrow> errors (drv_after out) = 0
              \<and> (\<exists>rest. effects out = fx0 @ Ioctl_SIOCSIWPRIV buf len # rest
                          \<and> HANGED \<notin> set rest))"
proof (intro conjI impI allI)
  have defined: "\<exists>buf bp. pno_setup_buffer k e ssid_conf = Some (buf, bp)" for e
    using pno_setup_buffer_result(1) [where e = e and ssid_conf = ssid_conf, OF assms(1-4) refl refl]
    by blast
  then obtain b p where bp: "pno_setup_buffer k e ssid_conf = Some (b, p)"
    by blast
  show "\<exists>buf bp r. pno_setup_buffer k e ssid_conf = Some (buf, bp)
            \<and> r = ioctl_pnosetup e buf bp
            \<and> wpa_driver_set_backgroundscan_params k e drv
                = Some (r,
                        drv\<lparr>errors := (if r < 0 \<and> errors drv + 1 \<le> DRV_NUMBER_SEQUENTIAL_ERRORS k
                                         then errors drv + 1 else 0)\<rparr>,
                        Ioctl_SIOCSIWPRIV buf bp
                          # (if r < 0 \<and> errors drv + 1 > DRV_NUMBER_SEQUENTIAL_ERRORS k
                             then [HANGED] else []))"
    using backgroundscan_params_result [OF assms(5,6) bp refl] bp by blast
  show "\<exists>fx. backgroundscan_calls k es drv = Some (drv\<lparr>errors := 0\<rparr>, fx)
                    \<and> length (filter (\<lambda>x. x = HANGED) fx) = 1"
    if "errors drv = 0 \<and> 0 \<le> DRV_NUMBER_SEQUENTIAL_ERRORS k
            \<and> length es = nat (DRV_NUMBER_SEQUENTIAL_ERRORS k) + 1
            \<and> (\<forall>e\<in>set es. \<forall>buf bp. ioctl_pnosetup e buf bp < 0)"
    using that assms(5)
    by (intro backgroundscan_calls_failing [OF defined assms(6)]) auto
  show "errors (drv_after out) = 0"
    if "driver_cmd_ioctl k e drv cmd buf len fx0 = Some out" for out
    using driver_cmd_ioctl_overrides(2) [OF that] .
  show "\<exists>rest. effects out = fx0 @ Ioctl_SIOCSIWPRIV buf len # rest \<and> HANGED \<notin> set rest"
    if "driver_cmd_ioctl k e drv cmd buf len fx0 = Some out" for out
    using driver_cmd_ioctl_overrides(3) [OF that] .
qed

lemma example_ctx [simp]:
  "ctx idle_drv = Some example_wpa_s" "conf example_wpa_s = Some networks5" "errors idle_drv = 0"
  "DRV_NUMBER_SEQUENTIAL_ERRORS example_consts = 4"
  by (simp_all add: idle_drv_def started_drv_def example_wpa_s_def example_consts_def)

text \<open>Claim C2, witness: five failing calls with a threshold of 4.\<close>

theorem error_counter_policy_witness:
  "errors idle_drv = 0
   \<and> length [failing_kernel, failing_kernel, failing_kernel, failing_kernel, failing_kernel]
       = nat (DRV_NUMBER_SEQUENTIAL_ERRORS example_consts) + 1
   \<and> (\<exists>fx. backgroundscan_calls example_consts
               [failing_kernel, failing_kernel, failing_kernel, failing_kernel, failing_kernel]
               idle_drv = Some (idle_drv\<lparr>errors := 0\<rparr>, fx)
             \<and> length (filter (\<lambda>x. x = HANGED) fx) = 1)"
  using error_counter_policy [where k = example_consts and drv = idle_drv
      and wpa_s = example_wpa_s and ssid_conf = networks5
      and es = "[failing_kernel, failing_kernel, failing_kernel, failing_kernel, failing_kernel]"]
  by (simp add: failing_kernel_def)

text \<open>
  Claim C2 as stated fails: in \<^verbatim>\<open>wpa_driver_wext_driver_cmd\<close> a failed ioctl does not
  increment the error counter. With the counter at 2 and an ioctl that returns -1, the call
  leaves the counter at 0 and emits no event.
\<close>

theorem failed_ioctl_not_counted:
  "fst (ioctl_cmd failing_kernel getband_buf 24) = - 1
   \<and> errors started_drv = 2
   \<and> map_option (\<lambda>out. (errors (drv_after out), effects out))
        (wpa_driver_wext_driver_cmd example_consts failing_kernel started_drv ''GETBAND'' buf24 24)
       = Some (0, [Ioctl_SIOCSIWPRIV getband_buf 24])"
  by (simp add: getband_run) (simp add: getband_out_def started_drv_def failing_kernel_def)

text \<open>
  Claim C6. While the driver is not started, a command that is not \<^verbatim>\<open>START\<close> (in any
  letter case) returns -1 and changes nothing: the driver data, the command and the buffer
  are as before and there is no effect. \<^verbatim>\<open>START\<close> is sent to the driver whatever the
  other state is and whatever the ioctl returns, the call returns 0, and afterwards
  \<^verbatim>\<open>driver_is_started\<close> is true.
\<close>

theorem stopped_driver_accepts_only_start:
  assumes "\<not> driver_is_started drv"
  shows "(os_strcasecmp cmd ''START'' \<noteq> 0 \<longrightarrow>
            wpa_driver_wext_driver_cmd k e drv cmd buf buf_len
              = Some \<lparr>ret = - 1, drv_after = drv, cmd_after = cmd, buf_after = buf, effects = []\<rparr>)
       \<and> (os_strcasecmp cmd ''START'' = 0 \<and> length cmd < length buf \<longrightarrow>
            wpa_driver_wext_driver_cmd k e drv cmd buf buf_len
              = Some \<lparr>ret = 0,
                      drv_after = drv\<lparr>errors := 0, driver_is_started := True\<rparr>,
                      cmd_after = cmd,
                      buf_after = snd (ioctl_cmd e (bytes_of cmd @ 0 # drop (Suc (length cmd)) buf)
                                         buf_len),
                      effects = [Ioctl_SIOCSIWPRIV (bytes_of cmd @ 0 # drop (Suc (length cmd)) buf)
                                   buf_len,
                                 Linux_set_iface_flags 1]\<rparr>)"
proof (intro conjI impI)
  assume "os_strcasecmp cmd ''START'' \<noteq> 0"
  with assms show "wpa_driver_wext_driver_cmd k e drv cmd buf buf_len
      = Some \<lparr>ret = - 1, drv_after = drv, cmd_after = cmd, buf_after = buf, effects = []\<rparr>"
    by (simp add: wpa_driver_wext_driver_cmd_def)
next
  assume a: "os_strcasecmp cmd ''START'' = 0 \<and> length cmd < length buf"
  then obtain c1 c2 c3 c4 c5 rest where cmd: "cmd = c1 # c2 # c3 # c4 # c5 # rest"
    and l: "tolower_c c1 = CHR ''s''" "tolower_c c2 = CHR ''t''" "tolower_c c3 = CHR ''a''"
           "tolower_c c4 = CHR ''r''" "tolower_c c5 = CHR ''t''"
    by (auto elim: strcasecmp_START)
  have others: "os_strcasecmp cmd ''RSSI-APPROX'' \<noteq> 0"
    "os_strncasecmp cmd ''SCAN-CHANNELS'' 13 \<noteq> 0"
    "os_strcasecmp cmd ''STOP'' \<noteq> 0" "os_strcasecmp cmd ''RELOAD'' \<noteq> 0"
    "os_strcasecmp cmd ''BGSCAN-START'' \<noteq> 0" "os_strcasecmp cmd ''BGSCAN-STOP'' \<noteq> 0"
    "os_strncasecmp cmd ''CSCAN'' 5 \<noteq> 0"
    "os_strcasecmp cmd RSSI_CMD \<noteq> 0" "os_strcasecmp cmd LINKSPEED_CMD \<noteq> 0"
    "os_strcasecmp cmd ''MACADDR'' \<noteq> 0" "os_strcasecmp cmd ''GETPOWER'' \<noteq> 0"
    "os_strcasecmp cmd ''GETBAND'' \<noteq> 0"
    by (simp_all add: cmd l os_strncasecmp_def RSSI_CMD_def LINKSPEED_CMD_def)
  have rw: "driver_cmd_rewrite k e drv cmd = Some (False, 0, drv, cmd, [])"
    by (simp add: driver_cmd_rewrite_def others)
  have io: "driver_cmd_ioctl k e drv cmd (bytes_of cmd @ 0 # drop (Suc (length cmd)) buf) buf_len []
      = Some \<lparr>ret = 0,
              drv_after = drv\<lparr>errors := 0, driver_is_started := True\<rparr>,
              cmd_after = cmd,
              buf_after = snd (ioctl_cmd e (bytes_of cmd @ 0 # drop (Suc (length cmd)) buf) buf_len),
              effects = [Ioctl_SIOCSIWPRIV (bytes_of cmd @ 0 # drop (Suc (length cmd)) buf) buf_len,
                         Linux_set_iface_flags 1]\<rparr>"
    using a by (simp add: driver_cmd_ioctl_def others Let_def split: prod.splits)
  show "wpa_driver_wext_driver_cmd k e drv cmd buf buf_len
      = Some \<lparr>ret = 0,
              drv_after = drv\<lparr>errors := 0, driver_is_started := True\<rparr>,
              cmd_after = cmd,
              buf_after = snd (ioctl_cmd e (bytes_of cmd @ 0 # drop (Suc (length cmd)) buf) buf_len),
              effects = [Ioctl_SIOCSIWPRIV (bytes_of cmd @ 0 # drop (Suc (length cmd)) buf) buf_len,
                         Linux_set_iface_flags 1]\<rparr>"
    using a by (simp add: wpa_driver_wext_driver_cmd_def rw memcpy_cmd others io)
qed

text \<open>Claim C6, witness: \<^verbatim>\<open>STOP\<close> and \<^verbatim>\<open>start\<close> on a stopped driver.\<close>

theorem stopped_driver_accepts_only_start_witness:
  "\<not> driver_is_started stopped_drv
   \<and> os_strcasecmp ''STOP'' ''START'' \<noteq> 0
   \<and> wpa_driver_wext_driver_cmd example_consts example_kernel stopped_drv ''STOP'' buf24 24
       = Some \<lparr>ret = - 1, drv_after = stopped_drv, cmd_after = ''STOP'', buf_after = buf24,
               effects = []\<rparr>
   \<and> os_strcasecmp ''start'' ''START'' = 0
   \<and> map_option (\<lambda>out. (ret out, driver_is_started (drv_after out)))
        (wpa_driver_wext_driver_cmd example_consts example_kernel stopped_drv ''start'' buf24 24)
       = Some (0, True)"
  using stopped_driver_accepts_only_start [where drv = stopped_drv and cmd = "''STOP''"
           and k = example_consts and e = example_kernel and buf = buf24 and buf_len = 24]
        stopped_driver_accepts_only_start [where drv = stopped_drv and cmd = "''start''"
           and k = example_consts and e = example_kernel and buf = buf24 and buf_len = 24]
  by (simp add: stopped_drv_def started_drv_def buf24_def tolower_c_def)

text \<open>
  Claim C7. Past the guard on the driver's state, that is on a started driver, a command
  that begins with \<^verbatim>\<open>CSCAN\<close> while the supplicant is scanning, or while its state is above \<^verbatim>\<open>WPA_SCANNING\<close> and below
  \<^verbatim>\<open>WPA_COMPLETED\<close>, returns 0 with no ioctl, no timeout and no scanning notification, and
  leaves the driver data and the command as they were; the command has been copied into the
  reply buffer.
\<close>

theorem cscan_while_scanning_is_noop:
  assumes "driver_is_started drv"
    and "os_strncasecmp cmd ''CSCAN'' 5 = 0"
    and "ctx drv = Some wpa_s"
    and "scanning wpa_s \<noteq> 0
         \<or> \<not> (wpa_state wpa_s \<le> WPA_SCANNING k \<or> wpa_state wpa_s \<ge> WPA_COMPLETED k)"
    and "length cmd < length buf"
  shows "wpa_driver_wext_driver_cmd k e drv cmd buf buf_len
           = Some \<lparr>ret = 0, drv_after = drv, cmd_after = cmd,
                   buf_after = bytes_of cmd @ 0 # drop (Suc (length cmd)) buf, effects = []\<rparr>"
proof -
  from assms(2) obtain c1 c2 c3 c4 c5 rest where cmd: "cmd = c1 # c2 # c3 # c4 # c5 # rest"
    and l: "tolower_c c1 = CHR ''c''" "tolower_c c2 = CHR ''s''" "tolower_c c3 = CHR ''c''"
           "tolower_c c4 = CHR ''a''" "tolower_c c5 = CHR ''n''"
    by (auto elim: strncasecmp_CSCAN)
  have others: "os_strcasecmp cmd ''RSSI-APPROX'' \<noteq> 0"
    "os_strncasecmp cmd ''SCAN-CHANNELS'' 13 \<noteq> 0"
    "os_strcasecmp cmd ''STOP'' \<noteq> 0" "os_strcasecmp cmd ''RELOAD'' \<noteq> 0"
    "os_strcasecmp cmd ''BGSCAN-START'' \<noteq> 0" "os_strcasecmp cmd ''BGSCAN-STOP'' \<noteq> 0"
    by (simp_all add: cmd l os_strncasecmp_def)
  have rw: "driver_cmd_rewrite k e drv cmd = Some (False, 0, drv, cmd, [])"
    by (simp add: driver_cmd_rewrite_def others)
  show ?thesis
    using assms by (auto simp: wpa_driver_wext_driver_cmd_def rw memcpy_cmd)
qed

text \<open>Claim C7, witness: a CSCAN command on a started driver whose supplicant is scanning.\<close>

theorem cscan_while_scanning_is_noop_witness:
  "driver_is_started scanning_drv
   \<and> os_strncasecmp ''CSCAN 6,TIME=600'' ''CSCAN'' 5 = 0
   \<and> map_option scanning (ctx scanning_drv) = Some 1
   \<and> wpa_driver_wext_driver_cmd example_consts example_kernel scanning_drv
        ''CSCAN 6,TIME=600'' buf24 24
       = Some \<lparr>ret = 0, drv_after = scanning_drv, cmd_after = ''CSCAN 6,TIME=600'',
               buf_after = bytes_of ''CSCAN 6,TIME=600'' @ [0, 0, 0, 0, 0, 0, 0, 0],
               effects = []\<rparr>"
  using cscan_while_scanning_is_noop [where drv = scanning_drv and cmd = "''CSCAN 6,TIME=600''"
           and wpa_s = scanning_wpa_s and k = example_consts and e = example_kernel
           and buf = buf24 and buf_len = 24]
  by (simp add: scanning_drv_def started_drv_def scanning_wpa_s_def buf24_def os_strncasecmp_def)

text \<open>
  Claim C8. With the spec's value of \<^verbatim>\<open>WEXT_NUMBER_SCAN_CHANNELS_ETSI\<close>, which is 14, a
  command \<^verbatim>\<open>SCAN-CHANNELS<n>\<close> on a started driver is rewritten to
  \<^verbatim>\<open>COUNTRY EU\<close> when \<open>n\<close> is 14, to \<^verbatim>\<open>COUNTRY JP\<close> when \<open>n\<close> is another number that
  equals \<^verbatim>\<open>WEXT_NUMBER_SCAN_CHANNELS_MKK1\<close>, and to \<^verbatim>\<open>COUNTRY US\<close> otherwise, and the
  rewritten command is what the ioctl sends.
\<close>

theorem scan_channels_country_code:
  assumes "driver_is_started drv"
    and "os_strncasecmp cmd ''SCAN-CHANNELS'' 13 = 0"
    and "WEXT_NUMBER_SCAN_CHANNELS_ETSI k = spec_scan_channels_etsi"
    and "11 \<le> MAX_DRV_CMD_SIZE k"
    and "11 \<le> length buf"
    and "country = (if atoi (drop 13 cmd) = spec_scan_channels_etsi then ''EU''
                    else if atoi (drop 13 cmd) = WEXT_NUMBER_SCAN_CHANNELS_MKK1 k then ''JP''
                    else ''US'')"
  shows "\<exists>out. wpa_driver_wext_driver_cmd k e drv cmd buf buf_len = Some out
           \<and> cmd_after out = ''COUNTRY '' @ country
           \<and> effects out
               = [Ioctl_SIOCSIWPRIV (bytes_of (''COUNTRY '' @ country) @ 0 # drop 11 buf) buf_len]
           \<and> (cmd = ''SCAN-CHANNELS14'' \<longrightarrow> cmd_after out = ''COUNTRY EU'')"
proof -
  from assms(2) obtain c1 rest where cmd: "cmd = c1 # rest" and l: "tolower_c c1 = CHR ''s''"
    by (auto elim: strncasecmp_SCAN_CHANNELS)
  have nr: "os_strcasecmp cmd ''RSSI-APPROX'' \<noteq> 0"
    by (simp add: cmd l)
  have code: "wpa_driver_get_country_code k (atoi (drop 13 cmd)) = country"
    by (simp add: wpa_driver_get_country_code_def assms(3,6))
  have c3: "country = ''EU'' \<or> country = ''JP'' \<or> country = ''US''"
    by (simp add: assms(6))
  then have sn: "os_snprintf (MAX_DRV_CMD_SIZE k) (''COUNTRY '' @ country) = ''COUNTRY '' @ country"
    using assms(4) by (auto simp: os_snprintf_def)
  have rw: "driver_cmd_rewrite k e drv cmd = Some (False, 0, drv, ''COUNTRY '' @ country, [])"
    using assms(2) by (simp add: driver_cmd_rewrite_def nr Let_def code sn del: append.simps)
  have len: "length (''COUNTRY '' @ country) = 10"
    using c3 by auto
  have mc: "os_memcpy buf 0 (bytes_of (''COUNTRY '' @ country) @ [0])
              = Some (bytes_of (''COUNTRY '' @ country) @ 0 # drop 11 buf)"
    using memcpy_cmd [of "''COUNTRY '' @ country" buf] assms(5) len by simp
  have nc: "os_strncasecmp (''COUNTRY '' @ country) ''CSCAN'' 5 \<noteq> 0"
    by (simp add: os_strncasecmp_def)
  have io: "driver_cmd_ioctl k e drv (''COUNTRY '' @ country)
              (bytes_of (''COUNTRY '' @ country) @ 0 # drop 11 buf) buf_len []
      = Some \<lparr>ret = 0, drv_after = drv\<lparr>errors := 0\<rparr>, cmd_after = ''COUNTRY '' @ country,
              buf_after = snd (ioctl_cmd e (bytes_of (''COUNTRY '' @ country) @ 0 # drop 11 buf)
                                 buf_len),
              effects = [Ioctl_SIOCSIWPRIV (bytes_of (''COUNTRY '' @ country) @ 0 # drop 11 buf)
                           buf_len]\<rparr>"
    using c3
    by (auto simp: driver_cmd_ioctl_def Let_def os_strncasecmp_def RSSI_CMD_def LINKSPEED_CMD_def
             split: prod.splits)
  have run: "wpa_driver_wext_driver_cmd k e drv cmd buf buf_len
      = Some \<lparr>ret = 0, drv_after = drv\<lparr>errors := 0\<rparr>, cmd_after = ''COUNTRY '' @ country,
              buf_after = snd (ioctl_cmd e (bytes_of (''COUNTRY '' @ country) @ 0 # drop 11 buf)
                                 buf_len),
              effects = [Ioctl_SIOCSIWPRIV (bytes_of (''COUNTRY '' @ country) @ 0 # drop 11 buf)
                           buf_len]\<rparr>"
    using assms(1) nc
    by (simp add: wpa_driver_wext_driver_cmd_def rw mc io del: append.simps)
  have "cmd = ''SCAN-CHANNELS14'' \<Longrightarrow> country = ''EU''"
    by (simp add: assms(6) atoi_def isspace_c_def isdigit_c_def spec_scan_channels_etsi_def)
  with run show ?thesis by simp
qed

text \<open>Claim C8, witness: \<^verbatim>\<open>SCAN-CHANNELS14\<close>.\<close>

theorem scan_channels_country_code_witness:
  "driver_is_started started_drv
   \<and> WEXT_NUMBER_SCAN_CHANNELS_ETSI example_consts = spec_scan_channels_etsi
   \<and> (\<exists>out. wpa_driver_wext_driver_cmd example_consts example_kernel started_drv
               ''SCAN-CHANNELS14'' buf24 24 = Some out
             \<and> cmd_after out = ''COUNTRY EU''
             \<and> effects out = [Ioctl_SIOCSIWPRIV (bytes_of ''COUNTRY EU'' @ 0 # drop 11 buf24) 24])"
  using scan_channels_country_code [where drv = started_drv and cmd = "''SCAN-CHANNELS14''"
           and k = example_consts and e = example_kernel and buf = buf24 and buf_len = 24,
           OF _ _ _ _ _ refl]
  by (auto simp: started_drv_def example_consts_def buf24_def os_strncasecmp_def atoi_def
        isspace_c_def isdigit_c_def spec_scan_channels_etsi_def)

end
